theory Spec2Isabelle
  imports Complex_Main "HOL-Library.Multiset" "HOL-Library.Product_Lexorder"
    "HOL-Library.List_Lexorder" "HOL-Library.Char_ord"
begin

section \<open>Lap frames\<close>

text \<open>
  The ETL scripts \<^verbatim>\<open>src/etl/ingest-laps.py\<close> (multi-season) and
  \<^verbatim>\<open>src/etl/ingest-laps-2025.py\<close> work on a pandas frame of laps. A frame is
  modelled as the list of its rows, in frame order. A row carries its index label
  (\<open>idx\<close>), the provider's columns and the columns the scripts add.

  A cell that pandas reports as missing (\<^verbatim>\<open>pd.notna\<close> is false) is \<open>None\<close>.
  The \<^verbatim>\<open>Compound\<close> cell is compared with \<^verbatim>\<open>!=\<close> and tested with
  \<^verbatim>\<open>is not None\<close>, so its two missing values are kept apart. Durations are
  the values of the float64 cells (every float is a rational number); what float64
  addition and subtraction make of them is not computed here but taken from the
  platform, see \<open>columns\<close> below. Driver numbers are the strings of digits the
  provider's frame holds, ordered as strings; \<^verbatim>\<open>LapNumber\<close> is always present.

  \<^verbatim>\<open>sort_values\<close> and \<^verbatim>\<open>argsort\<close> are the stable sort \<open>sort_key\<close>: the order
  pandas gives to rows with equal keys is not fixed by the scripts. Where a script
  reads a row back through its label (\<^verbatim>\<open>.loc[idx]\<close>), the model takes the row
  itself; the two agree on a frame with distinct labels, which the statements about
  single rows assume.
\<close>

datatype cell = PyNone | NaN | Str string

definition py_ne :: "cell \<Rightarrow> cell \<Rightarrow> bool" where
  "py_ne a b = (a = NaN \<or> b = NaN \<or> a \<noteq> b)"

record lap =
  idx :: nat
  DriverNumber :: "string option"
  Driver :: string
  LapNumber :: nat
  LapTime :: "rat option"
  PitInTime :: "rat option"
  PitOutTime :: "rat option"
  Compound :: cell
  TyreLife :: "int option"
  TrackStatus :: "string option"
  IsAccurate :: "bool option"
  GapToLeader :: "rat option"
  Position :: "int option"
  col_stint_id :: nat
  col_stint_lap_index :: nat
  is_in_lap_detected :: bool
  is_out_lap_detected :: bool
  is_pit_lap_detected :: bool
  col_clean_air_flag :: bool

text \<open>\<^verbatim>\<open>Series.unique()\<close>: the distinct values in order of first appearance.\<close>

definition unique :: "'a list \<Rightarrow> 'a list" where
  "unique xs = rev (remdups (rev xs))"

text \<open>
  \<^verbatim>\<open>sort_values(['DriverNumber', 'LapNumber'])\<close>: missing driver numbers go last.
\<close>

definition driver_lap_key :: "lap \<Rightarrow> (nat \<times> string) \<times> nat" where
  "driver_lap_key r =
     ((case DriverNumber r of None \<Rightarrow> (1, []) | Some d \<Rightarrow> (0, d)), LapNumber r)"

text \<open>
  \<^verbatim>\<open>laps_df['DriverNumber'] == driver\<close>: a missing value equals nothing, itself
  included.
\<close>

definition driver_mask :: "string option \<Rightarrow> lap \<Rightarrow> bool" where
  "driver_mask driver r = (driver \<noteq> None \<and> DriverNumber r = driver)"

text \<open>
  \<^verbatim>\<open>laps_df.loc[mask, cols] = values\<close>: the rows under the mask take the values
  in order; the other rows stay.
\<close>

fun assign_masked :: "(lap \<Rightarrow> 'v \<Rightarrow> lap) \<Rightarrow> (lap \<Rightarrow> bool) \<Rightarrow> 'v list \<Rightarrow> lap list \<Rightarrow> lap list" where
  "assign_masked upd m vs [] = []"
| "assign_masked upd m [] (r # rs) = r # assign_masked upd m [] rs"
| "assign_masked upd m (v # vs) (r # rs) =
     (if m r then upd r v # assign_masked upd m vs rs
      else r # assign_masked upd m (v # vs) rs)"

section \<open>Stint segmentation\<close>

subsection \<open>Multi-season: \<^verbatim>\<open>detect_stints_and_pit_laps\<close>\<close>

text \<open>
  The body of the loop over one driver's rows. The state is \<^verbatim>\<open>current_stint\<close>,
  \<^verbatim>\<open>stint_lap\<close>, \<^verbatim>\<open>prev_compound\<close> and \<^verbatim>\<open>prev_had_pit_in\<close>; the result is
  the five lists the loop appends to, zipped.
\<close>

fun stint_pit_loop :: "nat \<Rightarrow> nat \<Rightarrow> cell \<Rightarrow> bool \<Rightarrow> lap list \<Rightarrow> (nat \<times> nat \<times> bool \<times> bool \<times> bool) list" where
  "stint_pit_loop current_stint stint_lap prev_compound prev_had_pit_in [] = []"
| "stint_pit_loop current_stint stint_lap prev_compound prev_had_pit_in (row # rows) =
     (let has_pit_in = (PitInTime row \<noteq> None);
          has_pit_out = (PitOutTime row \<noteq> None);
          is_in_lap = has_pit_in;
          is_out_lap = has_pit_out;
          is_pit_lap = (is_in_lap \<or> is_out_lap);
          compound_changed = (prev_compound \<noteq> PyNone \<and> py_ne (Compound row) prev_compound);
          pit_stop_occurred = (prev_had_pit_in \<or> has_pit_out);
          new_stint = (prev_compound \<noteq> PyNone \<and> (compound_changed \<or> pit_stop_occurred));
          current_stint' = (if new_stint then current_stint + 1 else current_stint);
          stint_lap' = (if new_stint then 1 else stint_lap)
      in (current_stint', stint_lap', is_in_lap, is_out_lap, is_pit_lap)
           # stint_pit_loop current_stint' (stint_lap' + 1) (Compound row) has_pit_in rows)"

definition set_stint_pit :: "lap \<Rightarrow> nat \<times> nat \<times> bool \<times> bool \<times> bool \<Rightarrow> lap" where
  "set_stint_pit r v =
     (case v of (s, i, il, ol, pl) \<Rightarrow>
        r\<lparr>col_stint_id := s, col_stint_lap_index := i, is_in_lap_detected := il,
          is_out_lap_detected := ol, is_pit_lap_detected := pl\<rparr>)"

definition init_stint_pit :: "lap \<Rightarrow> lap" where
  "init_stint_pit r =
     r\<lparr>col_stint_id := 0, col_stint_lap_index := 0, is_in_lap_detected := False,
       is_out_lap_detected := False, is_pit_lap_detected := False\<rparr>"

definition detect_stints_and_pit_laps :: "lap list \<Rightarrow> lap list" where
  "detect_stints_and_pit_laps laps_df =
     (let df = map init_stint_pit (sort_key driver_lap_key laps_df)
      in foldl (\<lambda>df driver.
                  assign_masked set_stint_pit (driver_mask driver)
                    (stint_pit_loop 1 1 PyNone False (filter (driver_mask driver) df)) df)
               df (unique (map DriverNumber df)))"

subsection \<open>2025: \<^verbatim>\<open>detect_stints\<close>\<close>

fun stint_loop :: "nat \<Rightarrow> nat \<Rightarrow> cell \<Rightarrow> lap list \<Rightarrow> (nat \<times> nat) list" where
  "stint_loop current_stint stint_lap prev_compound [] = []"
| "stint_loop current_stint stint_lap prev_compound (row # rows) =
     (let new_stint = (prev_compound \<noteq> PyNone \<and>
                        (py_ne (Compound row) prev_compound \<or> PitInTime row \<noteq> None));
          current_stint' = (if new_stint then current_stint + 1 else current_stint);
          stint_lap' = (if new_stint then 1 else stint_lap)
      in (current_stint', stint_lap')
           # stint_loop current_stint' (stint_lap' + 1) (Compound row) rows)"

definition set_stint :: "lap \<Rightarrow> nat \<times> nat \<Rightarrow> lap" where
  "set_stint r v = (case v of (s, i) \<Rightarrow> r\<lparr>col_stint_id := s, col_stint_lap_index := i\<rparr>)"

definition init_stint :: "lap \<Rightarrow> lap" where
  "init_stint r = r\<lparr>col_stint_id := 0, col_stint_lap_index := 0\<rparr>"

definition detect_stints :: "lap list \<Rightarrow> lap list" where
  "detect_stints laps_df =
     (let df = map init_stint (sort_key driver_lap_key laps_df)
      in foldl (\<lambda>df driver.
                  assign_masked set_stint (driver_mask driver)
                    (stint_loop 1 1 PyNone (filter (driver_mask driver) df)) df)
               df (unique (map DriverNumber df)))"

text \<open>
  The rows of one driver in a frame, and what the segmentation promises about them: laps
  in ascending order, the first lap in stint 1 at index 1, and from one lap to the next
  the stint never decreases and the index is 1 exactly when the stint changed, one more
  than before otherwise.
\<close>

definition driver_rows :: "string \<Rightarrow> lap list \<Rightarrow> lap list" where
  "driver_rows d df = filter (\<lambda>r. DriverNumber r = Some d) df"

definition stint_monotone :: "lap list \<Rightarrow> bool" where
  "stint_monotone ds =
     (sorted (map LapNumber ds) \<and>
      (ds \<noteq> [] \<longrightarrow> col_stint_id (hd ds) = 1 \<and> col_stint_lap_index (hd ds) = 1) \<and>
      (\<forall>k. Suc k < length ds \<longrightarrow>
         col_stint_id (ds ! k) \<le> col_stint_id (ds ! Suc k) \<and>
         (col_stint_lap_index (ds ! Suc k) = 1) = (col_stint_id (ds ! Suc k) \<noteq> col_stint_id (ds ! k)) \<and>
         (col_stint_id (ds ! Suc k) = col_stint_id (ds ! k) \<longrightarrow>
            col_stint_lap_index (ds ! Suc k) = col_stint_lap_index (ds ! k) + 1)))"

definition stint_step :: "nat \<times> nat \<Rightarrow> nat \<times> nat \<Rightarrow> bool" where
  "stint_step a b = (fst b = fst a \<and> snd b = snd a + 1 \<or> fst b = fst a + 1 \<and> snd b = 1)"

fun stint_chain :: "nat \<times> nat \<Rightarrow> (nat \<times> nat) list \<Rightarrow> bool" where
  "stint_chain a [] = True"
| "stint_chain a (b # bs) = (stint_step a b \<and> stint_chain b bs)"

section \<open>Clean-air classification\<close>

text \<open>
  What the classifiers take from the frame and its libraries rather than from the
  scripts. First, which optional columns the frame has
  (\<^verbatim>\<open>'GapToLeader' in laps_df.columns\<close> and the like); the cells of a column the
  frame lacks are not read. Second, the arithmetic of its float64 cells:
  \<open>float_add\<close> and \<open>float_sub\<close> are the float64 sum and difference of two
  values (Python's and numpy's \<^verbatim>\<open>+\<close> and \<^verbatim>\<open>-\<close>), and \<open>float_cumsum\<close> is
  the last entry of pandas' \<^verbatim>\<open>cumsum\<close> over a list of values. They are
  parameters: no statement below depends on how the platform rounds.
\<close>

record columns =
  has_GapToLeader :: bool
  has_Position :: bool
  has_Driver :: bool
  float_add :: "rat \<Rightarrow> rat \<Rightarrow> rat"
  float_sub :: "rat \<Rightarrow> rat \<Rightarrow> rat"
  float_cumsum :: "rat list \<Rightarrow> rat"

text \<open>What a script raises, as far as the model follows it.\<close>

datatype py_exception = TypeError

text \<open>\<^verbatim>\<open>laps_df.loc[idx, 'clean_air_flag'] = v\<close>: every row with that label.\<close>

definition set_clean_air :: "nat \<Rightarrow> bool \<Rightarrow> lap list \<Rightarrow> lap list" where
  "set_clean_air i v df = map (\<lambda>r. if idx r = i then r\<lparr>col_clean_air_flag := v\<rparr> else r) df"

subsection \<open>Multi-season: \<^verbatim>\<open>detect_clean_air\<close>\<close>

definition CLEAN_AIR_GAP_THRESHOLD :: rat where
  "CLEAN_AIR_GAP_THRESHOLD = 2"

text \<open>
  \<^verbatim>\<open>laps_df['GapToLeader'].notna().sum() > len(laps_df) * 0.5\<close>, over the whole
  frame, with the product written on the left to stay in the integers.
\<close>

definition has_gap_to_leader :: "columns \<Rightarrow> lap list \<Rightarrow> bool" where
  "has_gap_to_leader cols laps_df =
     (has_GapToLeader cols \<and>
      2 * length (filter (\<lambda>r. GapToLeader r \<noteq> None) laps_df) > length laps_df)"

text \<open>\<^verbatim>\<open>sort_values('Position')\<close>: rows without a position go last.\<close>

definition position_key :: "lap \<Rightarrow> nat \<times> int" where
  "position_key r = (case Position r of None \<Rightarrow> (1, 0) | Some p \<Rightarrow> (0, p))"

text \<open>
  The body of the loop over the rows of one lap number in
  \<^verbatim>\<open>_detect_clean_air_from_gap\<close>: whether the row's flag is set to false.
\<close>

definition gap_row_dirty :: "columns \<Rightarrow> rat \<Rightarrow> lap list \<Rightarrow> lap \<Rightarrow> bool" where
  "gap_row_dirty cols threshold lap_data row =
     (if Position row = Some 1 then False
      else if GapToLeader row \<noteq> None then
        (let car_ahead = (case Position row of None \<Rightarrow> []
                          | Some position \<Rightarrow> filter (\<lambda>r. Position r = Some (position - 1)) lap_data)
         in if car_ahead \<noteq> [] \<and> GapToLeader (hd car_ahead) \<noteq> None
            then float_sub cols (the (GapToLeader row)) (the (GapToLeader (hd car_ahead))) < threshold
            else False)
      else False)"

text \<open>The rows of one lap number, sorted by position.\<close>

definition lap_data_by_position :: "lap list \<Rightarrow> nat \<Rightarrow> lap list" where
  "lap_data_by_position df lap_num = sort_key position_key (filter (\<lambda>r. LapNumber r = lap_num) df)"

definition detect_clean_air_from_gap :: "columns \<Rightarrow> rat \<Rightarrow> lap list \<Rightarrow> lap list" where
  "detect_clean_air_from_gap cols threshold laps_df =
     foldl (\<lambda>df lap_num.
              if has_Position cols then
                (let lap_data = lap_data_by_position df lap_num
                 in foldl (\<lambda>df row. if gap_row_dirty cols threshold lap_data row
                                      then set_clean_air (idx row) False df else df)
                          df lap_data)
              else df)
           laps_df (unique (map LapNumber laps_df))"

text \<open>
  \<^verbatim>\<open>groupby('DriverNumber')['_lap_time_sec'].cumsum()\<close> in frame order: the running
  total of a driver's durations so far (\<open>seen d\<close>); a row without a duration or
  without a driver number has no cumulative time, and the total goes on after it.
\<close>

fun groupby_cumsum :: "columns \<Rightarrow> (string \<Rightarrow> rat list) \<Rightarrow> lap list \<Rightarrow> rat option list" where
  "groupby_cumsum cols seen [] = []"
| "groupby_cumsum cols seen (r # rs) =
     (case DriverNumber r of
        None \<Rightarrow> None # groupby_cumsum cols seen rs
      | Some d \<Rightarrow>
          (case LapTime r of
             None \<Rightarrow> None # groupby_cumsum cols seen rs
           | Some t \<Rightarrow>
               Some (float_cumsum cols (seen d @ [t]))
                 # groupby_cumsum cols (seen(d := seen d @ [t])) rs))"

text \<open>
  \<^verbatim>\<open>for i in range(1, len(sorted_indices))\<close> over the labels and cumulative times in
  on-track order.
\<close>

fun mark_dirty_gaps :: "columns \<Rightarrow> rat \<Rightarrow> (nat \<times> rat) list \<Rightarrow> lap list \<Rightarrow> lap list" where
  "mark_dirty_gaps cols threshold (a # b # rest) df =
     mark_dirty_gaps cols threshold (b # rest)
       (if float_sub cols (snd b) (snd a) < threshold then set_clean_air (fst b) False df else df)"
| "mark_dirty_gaps cols threshold rest df = df"

text \<open>The labels and cumulative times of the rows of one lap number that have one.\<close>

definition valid_cumtimes :: "(lap \<times> rat option) list \<Rightarrow> nat \<Rightarrow> (nat \<times> rat) list" where
  "valid_cumtimes rows lap_num =
     map (\<lambda>(r, c). (idx r, the c)) (filter (\<lambda>(r, c). LapNumber r = lap_num \<and> c \<noteq> None) rows)"

text \<open>The frame sorted in place, with its column \<^verbatim>\<open>_cumulative_time\<close>.\<close>

definition with_cumsum :: "columns \<Rightarrow> lap list \<Rightarrow> (lap \<times> rat option) list" where
  "with_cumsum cols df = zip df (groupby_cumsum cols (\<lambda>_. []) df)"

text \<open>
  The loop over the lap numbers of the sorted frame, and
  \<^verbatim>\<open>_detect_clean_air_from_cumulative\<close>. When the frame has rows and none has a
  duration, the column \<^verbatim>\<open>_lap_time_sec\<close> holds only \<^verbatim>\<open>None\<close>, its dtype is
  \<^verbatim>\<open>object\<close>, and \<^verbatim>\<open>cumsum\<close> raises \<^verbatim>\<open>TypeError\<close>.
\<close>

definition mark_cumulative_gaps :: "columns \<Rightarrow> rat \<Rightarrow> lap list \<Rightarrow> lap list" where
  "mark_cumulative_gaps cols threshold df =
     (let rows = with_cumsum cols df
      in foldl (\<lambda>df lap_num.
                  (let valid = valid_cumtimes rows lap_num
                   in if length valid < 2 then df
                      else mark_dirty_gaps cols threshold (sort_key snd valid) df))
               df (unique (map LapNumber df)))"

definition detect_clean_air_from_cumulative ::
  "columns \<Rightarrow> rat \<Rightarrow> lap list \<Rightarrow> py_exception + lap list" where
  "detect_clean_air_from_cumulative cols threshold laps_df =
     (let df = sort_key driver_lap_key laps_df
      in if df \<noteq> [] \<and> list_all (\<lambda>r. LapTime r = None) df then Inl TypeError
         else Inr (mark_cumulative_gaps cols threshold df))"

definition detect_clean_air :: "columns \<Rightarrow> rat \<Rightarrow> lap list \<Rightarrow> py_exception + lap list" where
  "detect_clean_air cols threshold laps_df =
     (let df = map (\<lambda>r. r\<lparr>col_clean_air_flag := True\<rparr>) laps_df
      in if has_gap_to_leader cols df then Inr (detect_clean_air_from_gap cols threshold df)
         else detect_clean_air_from_cumulative cols threshold df)"

subsection \<open>2025: \<^verbatim>\<open>detect_clean_air\<close>\<close>

definition CLEAN_AIR_GAP_THRESHOLD_2025 :: rat where
  "CLEAN_AIR_GAP_THRESHOLD_2025 = 3 / 2"

text \<open>
  The column \<^verbatim>\<open>driver_col\<close>: \<^verbatim>\<open>Driver\<close> when the frame has it, else
  \<^verbatim>\<open>DriverNumber\<close>. Both choices are given one type.
\<close>

definition driver_col :: "columns \<Rightarrow> lap \<Rightarrow> string \<times> nat \<times> string" where
  "driver_col cols r =
     (if has_Driver cols then (Driver r, 0, [])
      else ([], case DriverNumber r of None \<Rightarrow> (1, []) | Some d \<Rightarrow> (0, d)))"

text \<open>
  The loop that fills \<^verbatim>\<open>cum_time_list\<close>: a missing duration adds nothing, and the
  row still gets the driver's running total.
\<close>

fun cum_time_loop :: "columns \<Rightarrow> (string \<times> nat \<times> string \<Rightarrow> rat) \<Rightarrow> lap list \<Rightarrow> rat list" where
  "cum_time_loop cols cumulative_times [] = []"
| "cum_time_loop cols cumulative_times (row # rows) =
     (let driver = driver_col cols row;
          cumulative_times' =
            (case LapTime row of
               None \<Rightarrow> cumulative_times
             | Some lap_seconds \<Rightarrow>
                 cumulative_times(driver := float_add cols (cumulative_times driver) lap_seconds))
      in cumulative_times' driver # cum_time_loop cols cumulative_times' rows)"

text \<open>The three exclusion checks of the 2025 classifier, in its order.\<close>

definition is_pit_row :: "lap \<Rightarrow> bool" where
  "is_pit_row row = (PitInTime row \<noteq> None \<or> PitOutTime row \<noteq> None)"

definition is_sc_row :: "lap \<Rightarrow> bool" where
  "is_sc_row row =
     (case TrackStatus row of
        None \<Rightarrow> False
      | Some track_status_str \<Rightarrow>
          CHR ''4'' \<in> set track_status_str \<or> CHR ''6'' \<in> set track_status_str \<or>
          CHR ''7'' \<in> set track_status_str)"

definition is_inaccurate_row :: "lap \<Rightarrow> bool" where
  "is_inaccurate_row row = (IsAccurate row = Some False)"

definition excluded :: "lap \<Rightarrow> bool" where
  "excluded row = (is_pit_row row \<or> is_sc_row row \<or> is_inaccurate_row row)"

text \<open>
  The \<^verbatim>\<open>enumerate\<close> loop over the rows of one lap number in cumulative-time order.
  \<open>ahead\<close> is the cumulative time of the row before (\<open>None\<close> at \<open>i = 0\<close>).
\<close>

fun classify_lap :: "columns \<Rightarrow> rat \<Rightarrow> rat option \<Rightarrow> (lap \<times> rat) list \<Rightarrow> lap list \<Rightarrow> lap list" where
  "classify_lap cols threshold ahead [] df = df"
| "classify_lap cols threshold ahead ((row, cum_time) # rest) df =
     classify_lap cols threshold (Some cum_time) rest
       (if is_pit_row row then df
        else if is_sc_row row then df
        else if is_inaccurate_row row then df
        else (case ahead of
                None \<Rightarrow> set_clean_air (idx row) True df
              | Some car_ahead_cum_time \<Rightarrow>
                  if float_sub cols cum_time car_ahead_cum_time \<ge> threshold
                  then set_clean_air (idx row) True df else df))"

text \<open>
  \<^verbatim>\<open>laps_df['clean_air_flag'] = sorted_laps['clean_air_flag']\<close> aligns on the index
  label.
\<close>

definition flag_of :: "lap list \<Rightarrow> nat \<Rightarrow> bool" where
  "flag_of sorted_laps i =
     (case find (\<lambda>s. idx s = i) sorted_laps of None \<Rightarrow> False | Some s \<Rightarrow> col_clean_air_flag s)"

text \<open>
  \<^verbatim>\<open>sorted_laps\<close> with its column \<^verbatim>\<open>cumulative_time\<close>, and the rows of one lap
  number in cumulative-time order.
\<close>

definition sorted_by_lap :: "columns \<Rightarrow> lap list \<Rightarrow> lap list" where
  "sorted_by_lap cols df = sort_key (\<lambda>r. (LapNumber r, driver_col cols r)) df"

definition with_cumulative_time :: "columns \<Rightarrow> lap list \<Rightarrow> (lap \<times> rat) list" where
  "with_cumulative_time cols sorted_laps = zip sorted_laps (cum_time_loop cols (\<lambda>_. 0) sorted_laps)"

definition lap_order :: "(lap \<times> rat) list \<Rightarrow> nat \<Rightarrow> (lap \<times> rat) list" where
  "lap_order rows lap_num = sort_key snd (filter (\<lambda>(r, c). LapNumber r = lap_num) rows)"

definition detect_clean_air_2025 :: "columns \<Rightarrow> rat \<Rightarrow> lap list \<Rightarrow> lap list" where
  "detect_clean_air_2025 cols threshold laps_df =
     (let df = map (\<lambda>r. r\<lparr>col_clean_air_flag := False\<rparr>) laps_df;
          sorted_laps = sorted_by_lap cols df;
          rows = with_cumulative_time cols sorted_laps;
          sorted_laps =
            foldl (\<lambda>sl lap_num. classify_lap cols threshold None (lap_order rows lap_num) sl)
                  sorted_laps (unique (map LapNumber sorted_laps))
      in map (\<lambda>r. r\<lparr>col_clean_air_flag := flag_of sorted_laps (idx r)\<rparr>) df)"

section \<open>Strings\<close>

text \<open>
  \<^verbatim>\<open>str(n)\<close> for a Python int, and the ASCII part of \<^verbatim>\<open>lower\<close>, \<^verbatim>\<open>upper\<close> and
  \<^verbatim>\<open>replace\<close>.
\<close>

definition digit_char :: "nat \<Rightarrow> char" where
  "digit_char d = char_of (48 + d)"

fun str_nat :: "nat \<Rightarrow> string" where
  "str_nat n = (if n < 10 then [digit_char n] else str_nat (n div 10) @ [digit_char (n mod 10)])"

declare str_nat.simps [simp del]

definition str_int :: "int \<Rightarrow> string" where
  "str_int i = (if i < 0 then CHR ''-'' # str_nat (nat (- i)) else str_nat (nat i))"

definition py_lower :: "string \<Rightarrow> string" where
  "py_lower s = map (\<lambda>c. let n = (of_char c :: nat) in if 65 \<le> n \<and> n \<le> 90 then char_of (n + 32) else c) s"

definition py_upper :: "string \<Rightarrow> string" where
  "py_upper s = map (\<lambda>c. let n = (of_char c :: nat) in if 97 \<le> n \<and> n \<le> 122 then char_of (n - 32) else c) s"

definition replace_space :: "string \<Rightarrow> string" where
  "replace_space s = map (\<lambda>c. if c = CHR '' '' then CHR ''_'' else c) s"

definition remove_quote :: "string \<Rightarrow> string" where
  "remove_quote s = filter (\<lambda>c. c \<noteq> CHR 0x27) s"

section \<open>Fail-closed transformer\<close>

text \<open>
  One element of \<^verbatim>\<open>transformed_laps\<close>: the dictionary \<^verbatim>\<open>lap_record\<close>. The key
  \<^verbatim>\<open>round\<close> is named \<open>round_number\<close> here.
\<close>

record lap_record =
  season :: int
  round_number :: int
  track_id :: string
  driver_id :: string
  session_type :: string
  lap_number :: nat
  stint_id :: nat
  stint_lap_index :: nat
  lap_time_seconds :: rat
  is_valid_lap :: bool
  is_pit_lap :: bool
  is_out_lap :: bool
  is_in_lap :: bool
  clean_air_flag :: bool
  compound :: cell
  tyre_age_laps :: "int option"

text \<open>
  What \<^verbatim>\<open>session.get_driver\<close> returns, and the session: the event name, the laps
  and the drivers (\<open>None\<close> where \<^verbatim>\<open>get_driver\<close> or the read of
  \<^verbatim>\<open>Abbreviation\<close> raises).
\<close>

record driver_info =
  Abbreviation :: string
  FirstName :: string
  LastName :: string

record session =
  EventName :: string
  laps :: "lap list"
  get_driver :: "string \<Rightarrow> driver_info option"

text \<open>The lines the transformer prints about counts.\<close>

datatype log_line =
    Transforming nat
  | Filtered_before nat
  | Skipped_missing nat
  | Transformed nat

text \<open>\<^verbatim>\<open>round(x, 3)\<close> on exact seconds: to the nearest thousandth, ties to even.\<close>

definition round3 :: "rat \<Rightarrow> rat" where
  "round3 x =
     (let y = x * 1000; f = \<lfloor>y\<rfloor>
      in of_int (if y - of_int f < 1 / 2 then f
                 else if 1 / 2 < y - of_int f then f + 1
                 else if even f then f else f + 1) / 1000)"

text \<open>\<^verbatim>\<open>not row.get('IsAccurate', True) == False\<close>, that is \<^verbatim>\<open>not (... == False)\<close>.\<close>

definition valid_lap :: "lap \<Rightarrow> bool" where
  "valid_lap row = (\<not> (IsAccurate row = Some False))"

text \<open>
  The filter both transformers start with:
  \<^verbatim>\<open>laps_df[pd.notna(laps_df['LapTime']) & pd.notna(laps_df['DriverNumber'])]\<close>.
\<close>

definition has_critical :: "lap \<Rightarrow> bool" where
  "has_critical r = (LapTime r \<noteq> None \<and> DriverNumber r \<noteq> None)"

subsection \<open>Multi-season: \<^verbatim>\<open>transform_lap_data\<close>\<close>

text \<open>The entry of \<^verbatim>\<open>driver_map\<close> for one driver number.\<close>

definition resolve_driver :: "session \<Rightarrow> (string \<rightharpoonup> string) \<Rightarrow> string \<Rightarrow> string" where
  "resolve_driver sess identity_map driver_num =
     (case get_driver sess driver_num of
        None \<Rightarrow> ''driver_'' @ driver_num
      | Some driver \<Rightarrow>
          (let abbrev = py_upper (Abbreviation driver)
           in case identity_map abbrev of
                Some v \<Rightarrow> v
              | None \<Rightarrow>
                  (let first_name = py_lower (FirstName driver);
                       last_name = py_lower (LastName driver)
                   in if first_name \<noteq> [] \<and> last_name \<noteq> []
                      then first_name @ ''_'' @ last_name
                      else py_lower abbrev)))"

definition build_record :: "int \<Rightarrow> int \<Rightarrow> string \<Rightarrow> (string \<Rightarrow> string) \<Rightarrow> lap \<Rightarrow> rat \<Rightarrow> lap_record" where
  "build_record seas rnd tid driver_map row lap_time =
     \<lparr>season = seas, round_number = rnd, track_id = tid,
      driver_id = (case DriverNumber row of Some d \<Rightarrow> driver_map d | None \<Rightarrow> ''dnan''),
      session_type = ''R'',
      lap_number = LapNumber row,
      stint_id = col_stint_id row,
      stint_lap_index = col_stint_lap_index row,
      lap_time_seconds = round3 lap_time,
      is_valid_lap = valid_lap row,
      is_pit_lap = is_pit_lap_detected row,
      is_out_lap = is_out_lap_detected row,
      is_in_lap = is_in_lap_detected row,
      clean_air_flag = col_clean_air_flag row,
      compound = Compound row,
      tyre_age_laps = TyreLife row\<rparr>"

text \<open>
  The loop over the rows: a row whose duration cannot be read is counted in
  \<^verbatim>\<open>skipped_count\<close> and left out.
\<close>

fun records_loop :: "(lap \<Rightarrow> rat \<Rightarrow> lap_record) \<Rightarrow> lap list \<Rightarrow> lap_record list \<times> nat" where
  "records_loop build [] = ([], 0)"
| "records_loop build (row # rows) =
     (case records_loop build rows of
        (transformed_laps, skipped_count) \<Rightarrow>
          (case LapTime row of
             None \<Rightarrow> (transformed_laps, skipped_count + 1)
           | Some lap_time \<Rightarrow> (build row lap_time # transformed_laps, skipped_count)))"

definition count_log :: "nat \<Rightarrow> nat \<Rightarrow> nat \<Rightarrow> nat \<Rightarrow> log_line list" where
  "count_log n skipped_before skipped_count m =
     [Transforming n]
     @ (if skipped_before > 0 then [Filtered_before skipped_before] else [])
     @ (if skipped_count > 0 then [Skipped_missing skipped_count] else [])
     @ [Transformed m]"

text \<open>
  The transformer has no handler around the classifier: what the classifier raises, the
  transformer raises (\<open>Inl\<close>), and nothing is returned.
\<close>

definition transform_lap_data ::
  "columns \<Rightarrow> lap list \<Rightarrow> session \<Rightarrow> int \<Rightarrow> int \<Rightarrow> string \<Rightarrow> (string \<rightharpoonup> string)
     \<Rightarrow> py_exception + lap_record list \<times> log_line list" where
  "transform_lap_data cols laps_df sess seas rnd tid identity_map =
     (let initial_count = length laps_df;
          df = filter has_critical laps_df;
          skipped_before = initial_count - length df;
          df = detect_stints_and_pit_laps df
      in case detect_clean_air cols CLEAN_AIR_GAP_THRESHOLD df of
           Inl e \<Rightarrow> Inl e
         | Inr df \<Rightarrow>
             (let driver_map = resolve_driver sess identity_map
              in case records_loop (build_record seas rnd tid driver_map) df of
                   (transformed_laps, skipped_count) \<Rightarrow>
                     Inr (transformed_laps,
                          count_log initial_count skipped_before skipped_count
                            (length transformed_laps))))"

subsection \<open>2025: \<^verbatim>\<open>transform_lap_data\<close>\<close>

definition FASTF1_TO_F1DB_DRIVER_MAP :: "string \<rightharpoonup> string" where
  "FASTF1_TO_F1DB_DRIVER_MAP =
     [''carlos_sainz'' \<mapsto> ''carlos_sainz_jr'', ''andrea_kimi_antonelli'' \<mapsto> ''kimi_antonelli'']"

definition resolve_driver_2025 :: "session \<Rightarrow> string \<Rightarrow> string" where
  "resolve_driver_2025 sess driver_num =
     (case get_driver sess driver_num of
        None \<Rightarrow> ''driver_'' @ driver_num
      | Some driver \<Rightarrow>
          (let first_name = replace_space (py_lower (FirstName driver));
               last_name = replace_space (py_lower (LastName driver))
           in if first_name \<noteq> [] \<and> last_name \<noteq> []
              then (let raw_id = first_name @ ''_'' @ last_name
                    in case FASTF1_TO_F1DB_DRIVER_MAP raw_id of Some v \<Rightarrow> v | None \<Rightarrow> raw_id)
              else py_lower (Abbreviation driver)))"

definition build_record_2025 :: "int \<Rightarrow> int \<Rightarrow> string \<Rightarrow> (string \<Rightarrow> string) \<Rightarrow> lap \<Rightarrow> rat \<Rightarrow> lap_record" where
  "build_record_2025 seas rnd tid driver_map row lap_time =
     \<lparr>season = seas, round_number = rnd, track_id = tid,
      driver_id = (case DriverNumber row of Some d \<Rightarrow> driver_map d | None \<Rightarrow> ''Dnan''),
      session_type = ''R'',
      lap_number = LapNumber row,
      stint_id = col_stint_id row,
      stint_lap_index = col_stint_lap_index row,
      lap_time_seconds = round3 lap_time,
      is_valid_lap = valid_lap row,
      is_pit_lap = (PitInTime row \<noteq> None \<or> PitOutTime row \<noteq> None),
      is_out_lap = (PitOutTime row \<noteq> None),
      is_in_lap = (PitInTime row \<noteq> None),
      clean_air_flag = col_clean_air_flag row,
      compound = Compound row,
      tyre_age_laps = TyreLife row\<rparr>"

definition transform_lap_data_2025 ::
  "columns \<Rightarrow> lap list \<Rightarrow> session \<Rightarrow> int \<Rightarrow> int \<Rightarrow> string \<Rightarrow> lap_record list \<times> log_line list" where
  "transform_lap_data_2025 cols laps_df sess seas rnd tid =
     (let initial_count = length laps_df;
          df = filter has_critical laps_df;
          skipped_before = initial_count - length df;
          df = detect_stints df;
          df = detect_clean_air_2025 cols CLEAN_AIR_GAP_THRESHOLD_2025 df;
          driver_map = resolve_driver_2025 sess
      in case records_loop (build_record_2025 seas rnd tid driver_map) df of
           (transformed_laps, skipped_count) \<Rightarrow>
             (transformed_laps,
              count_log initial_count skipped_before skipped_count (length transformed_laps)))"

section \<open>Transactional loader\<close>

text \<open>
  The connection: the rows of \<^verbatim>\<open>laps_normalized\<close> as this session sees them, and the
  rows as they were when the open transaction began (\<open>None\<close> outside a transaction).
\<close>

record conn =
  table :: "lap_record list"
  snapshot :: "lap_record list option"

definition sql_begin :: "conn \<Rightarrow> conn" where
  "sql_begin c = (case snapshot c of None \<Rightarrow> c\<lparr>snapshot := Some (table c)\<rparr> | Some _ \<Rightarrow> c)"

definition sql_commit :: "conn \<Rightarrow> conn" where
  "sql_commit c = c\<lparr>snapshot := None\<rparr>"

definition sql_rollback :: "conn \<Rightarrow> conn" where
  "sql_rollback c = (case snapshot c of None \<Rightarrow> c | Some t \<Rightarrow> c\<lparr>table := t, snapshot := None\<rparr>)"

text \<open>\<^verbatim>\<open>SELECT COUNT(*) FROM laps_normalized WHERE season = %s AND round = %s\<close>.\<close>

definition count_rows :: "lap_record list \<Rightarrow> int \<Rightarrow> int \<Rightarrow> nat" where
  "count_rows t seas rnd = length (filter (\<lambda>r. season r = seas \<and> round_number r = rnd) t)"

definition check_race_already_loaded :: "conn \<Rightarrow> int \<Rightarrow> int \<Rightarrow> bool" where
  "check_race_already_loaded c seas rnd = (count_rows (table c) seas rnd > 0)"

text \<open>
  \<^verbatim>\<open>ON CONFLICT (season, round, track_id, driver_id, lap_number) DO UPDATE SET ...\<close>:
  the conflict key, the update of the stored row from the proposed one, and the insert
  of one row.
\<close>

definition conflict_key :: "lap_record \<Rightarrow> int \<times> int \<times> string \<times> string \<times> nat" where
  "conflict_key r = (season r, round_number r, track_id r, driver_id r, lap_number r)"

definition do_update :: "lap_record \<Rightarrow> lap_record \<Rightarrow> lap_record" where
  "do_update stored EXCLUDED =
     stored\<lparr>session_type := session_type EXCLUDED,
            stint_id := stint_id EXCLUDED,
            stint_lap_index := stint_lap_index EXCLUDED,
            is_pit_lap := is_pit_lap EXCLUDED,
            is_out_lap := is_out_lap EXCLUDED,
            is_in_lap := is_in_lap EXCLUDED\<rparr>"

fun upsert :: "lap_record \<Rightarrow> lap_record list \<Rightarrow> lap_record list" where
  "upsert new [] = [new]"
| "upsert new (stored # rest) =
     (if conflict_key stored = conflict_key new then do_update stored new # rest
      else stored # upsert new rest)"

text \<open>
  \<^verbatim>\<open>execute_values(cur, insert_query, values)\<close>. The database may raise while a row is
  written (a constraint, a lost connection): \<open>fault = Some k\<close> raises at row \<open>k\<close> of
  the batch, after the rows before it were written. \<open>Inl\<close> is the raise, with the
  table as the statement left it.
\<close>

fun execute_values :: "nat option \<Rightarrow> lap_record list \<Rightarrow> lap_record list \<Rightarrow> lap_record list + lap_record list" where
  "execute_values fault [] t = Inr t"
| "execute_values fault (v # vs) t =
     (if fault = Some 0 then Inl t
      else execute_values (map_option (\<lambda>k. k - 1) fault) vs (upsert v t))"

datatype status = Success | Skipped | Failed

record load_result =
  status :: status
  laps_inserted :: nat
  result_track_id :: string
  error :: "string option"

text \<open>
  \<^verbatim>\<open>load_race_data\<close> of the multi-season script. \<open>fetched\<close> is what
  \<^verbatim>\<open>fastf1.get_session\<close> and \<^verbatim>\<open>session.load\<close> gave: \<open>Inl\<close> when they raised.
  An exception of the transformer is caught by the outer handler, as one of the fetch
  is, before any statement has been sent to the database.
\<close>

definition load_race_data ::
  "conn \<Rightarrow> string + session \<Rightarrow> nat option \<Rightarrow> columns \<Rightarrow> int \<Rightarrow> int \<Rightarrow> (string \<rightharpoonup> string)
     \<Rightarrow> conn \<times> load_result" where
  "load_race_data c fetched fault cols seas rnd identity_map =
     (case fetched of
        Inl e \<Rightarrow>
          (c, \<lparr>status = Failed, laps_inserted = 0, result_track_id = ''unknown'', error = Some e\<rparr>)
      | Inr sess \<Rightarrow>
          (let tid = remove_quote (replace_space (py_lower (EventName sess)))
           in if check_race_already_loaded c seas rnd
              then (c, \<lparr>status = Skipped, laps_inserted = 0, result_track_id = tid, error = None\<rparr>)
              else if laps sess = []
              then (c, \<lparr>status = Failed, laps_inserted = 0, result_track_id = tid,
                        error = Some ''No lap data''\<rparr>)
              else (case transform_lap_data cols (laps sess) sess seas rnd tid identity_map of
                      Inl e \<Rightarrow>
                        (c, \<lparr>status = Failed, laps_inserted = 0, result_track_id = ''unknown'',
                             error = Some ''TypeError''\<rparr>)
                    | Inr returned \<Rightarrow>
                        (let transformed_laps = fst returned
                         in if transformed_laps = []
                            then (c, \<lparr>status = Failed, laps_inserted = 0, result_track_id = tid,
                                      error = Some ''No valid laps''\<rparr>)
                            else (let c = sql_begin c
                                  in case execute_values fault transformed_laps (table c) of
                                       Inr t \<Rightarrow>
                                         (sql_commit (c\<lparr>table := t\<rparr>),
                                          \<lparr>status = Success, laps_inserted = length transformed_laps,
                                           result_track_id = tid, error = None\<rparr>)
                                     | Inl t \<Rightarrow>
                                         (sql_rollback (c\<lparr>table := t\<rparr>),
                                          \<lparr>status = Failed, laps_inserted = 0, result_track_id = tid,
                                           error = Some ''insert failed''\<rparr>))))))"

text \<open>\<^verbatim>\<open>load_race_data\<close> of the 2025 script.\<close>

definition load_race_data_2025 ::
  "conn \<Rightarrow> string + session \<Rightarrow> nat option \<Rightarrow> columns \<Rightarrow> int \<Rightarrow> int \<Rightarrow> conn \<times> load_result" where
  "load_race_data_2025 c fetched fault cols seas rnd =
     (case fetched of
        Inl e \<Rightarrow>
          (c, \<lparr>status = Failed, laps_inserted = 0, result_track_id = ''unknown'', error = Some e\<rparr>)
      | Inr sess \<Rightarrow>
          (let tid = replace_space (py_lower (EventName sess))
           in if check_race_already_loaded c seas rnd
              then (c, \<lparr>status = Skipped, laps_inserted = 0, result_track_id = tid, error = None\<rparr>)
              else if laps sess = []
              then (c, \<lparr>status = Failed, laps_inserted = 0, result_track_id = tid,
                        error = Some ''No lap data''\<rparr>)
              else (let transformed_laps =
                          fst (transform_lap_data_2025 cols (laps sess) sess seas rnd tid)
                    in if transformed_laps = []
                       then (c, \<lparr>status = Failed, laps_inserted = 0, result_track_id = tid,
                                 error = Some ''No valid laps''\<rparr>)
                       else (let c = sql_begin c
                             in case execute_values fault transformed_laps (table c) of
                                  Inr t \<Rightarrow>
                                    (sql_commit (c\<lparr>table := t\<rparr>),
                                     \<lparr>status = Success, laps_inserted = length transformed_laps,
                                      result_track_id = tid, error = None\<rparr>)
                                | Inl t \<Rightarrow>
                                    (sql_rollback (c\<lparr>table := t\<rparr>),
                                     \<lparr>status = Failed, laps_inserted = 0, result_track_id = tid,
                                      error = Some ''insert failed''\<rparr>)))))"

section \<open>Audit recorder\<close>

record ETLMetrics =
  races_processed :: nat
  races_skipped :: nat
  races_failed :: nat
  total_laps_inserted :: nat
  execution_hash :: string

definition new_metrics :: ETLMetrics where
  "new_metrics = \<lparr>races_processed = 0, races_skipped = 0, races_failed = 0,
                   total_laps_inserted = 0, execution_hash = []\<rparr>"

text \<open>
  The string that is hashed, \<^verbatim>\<open>f"{season}:{round_number}:{source_version}"\<close>, and
  \<^verbatim>\<open>compute_execution_hash\<close>. \<open>sha256\<close> stands for
  \<^verbatim>\<open>hashlib.sha256(...).hexdigest()\<close>, a library function taken as a parameter.
\<close>

definition execution_data :: "int \<Rightarrow> int \<Rightarrow> string \<Rightarrow> string" where
  "execution_data seas rnd source_version =
     str_int seas @ '':'' @ str_int rnd @ '':'' @ source_version"

definition compute_execution_hash :: "(string \<Rightarrow> string) \<Rightarrow> int \<Rightarrow> int \<Rightarrow> string \<Rightarrow> string" where
  "compute_execution_hash sha256 seas rnd source_version =
     sha256 (execution_data seas rnd source_version)"

text \<open>The loop over the rounds in \<^verbatim>\<open>main\<close> and the hash it stores.\<close>

definition count_result :: "ETLMetrics \<Rightarrow> load_result \<Rightarrow> ETLMetrics" where
  "count_result metrics result =
     (case status result of
        Success \<Rightarrow> metrics\<lparr>races_processed := races_processed metrics + 1,
                             total_laps_inserted := total_laps_inserted metrics + laps_inserted result\<rparr>
      | Skipped \<Rightarrow> metrics\<lparr>races_skipped := races_skipped metrics + 1\<rparr>
      | Failed \<Rightarrow> metrics\<lparr>races_failed := races_failed metrics + 1\<rparr>)"

definition process_rounds ::
  "conn \<Rightarrow> (int \<Rightarrow> string + session) \<Rightarrow> (int \<Rightarrow> nat option) \<Rightarrow> columns \<Rightarrow> int
     \<Rightarrow> (string \<rightharpoonup> string) \<Rightarrow> int list \<Rightarrow> conn \<times> ETLMetrics" where
  "process_rounds c fetch fault cols seas identity_map rounds_to_process =
     foldl (\<lambda>(c, metrics) round_num.
              (case load_race_data c (fetch round_num) (fault round_num) cols seas round_num identity_map of
                 (c', result) \<Rightarrow> (c', count_result metrics result)))
           (c, new_metrics) rounds_to_process"

definition run_execution_hash :: "(string \<Rightarrow> string) \<Rightarrow> int \<Rightarrow> int list \<Rightarrow> string \<Rightarrow> string" where
  "run_execution_hash sha256 seas rounds_to_process fastf1_version =
     compute_execution_hash sha256 seas
       (if length rounds_to_process = 1 then hd rounds_to_process else 0)
       (''fastf1-'' @ fastf1_version)"

text \<open>
  The hashed string as the specification words it,
  \<^verbatim>\<open>{subject-kind}:{season}:{round-or-0}:{source-version-string}\<close>, for comparison with
  \<open>execution_data\<close>.
\<close>

definition spec_execution_data :: "string \<Rightarrow> int \<Rightarrow> int \<Rightarrow> string \<Rightarrow> string" where
  "spec_execution_data subject_kind seas rnd source_version =
     subject_kind @ '':'' @ str_int seas @ '':'' @ str_int rnd @ '':'' @ source_version"

section \<open>Notions used in the statements and proofs\<close>

text \<open>
  A row without the columns the scripts add: two rows with the same \<open>raw\<close> are the same
  lap of the provider.
\<close>

definition raw :: "lap \<Rightarrow> lap" where
  "raw r = r\<lparr>col_stint_id := 0, col_stint_lap_index := 0, is_in_lap_detected := False,
             is_out_lap_detected := False, is_pit_lap_detected := False,
             col_clean_air_flag := False\<rparr>"

text \<open>
  Reading a decimal string back, to show that \<open>str_nat\<close> loses nothing.
\<close>

definition digit_val :: "char \<Rightarrow> nat" where
  "digit_val c = of_char c - 48"

definition nat_of_str :: "string \<Rightarrow> nat" where
  "nat_of_str s = foldl (\<lambda>a c. 10 * a + digit_val c) 0 s"

text \<open>
  The labels a classification loop writes to. \<open>mark v S\<close> sets the flag of the rows
  labelled in \<open>S\<close>. \<open>clean_labels\<close> are the labels the 2025 loop over one lap number
  sets to clean, and \<open>labels_2025\<close> those of all lap numbers; \<open>dirty_labels\<close> are the
  labels the multi-season loop over the cumulative times of one lap number sets to
  dirty, and \<open>labels_cumulative\<close> those of all lap numbers; \<open>gap_labels\<close> are the
  labels the direct-gap loop over one lap number sets to dirty.
\<close>

definition mark :: "bool \<Rightarrow> nat set \<Rightarrow> lap \<Rightarrow> lap" where
  "mark v S r = (if idx r \<in> S then r\<lparr>col_clean_air_flag := v\<rparr> else r)"

fun clean_labels :: "columns \<Rightarrow> rat \<Rightarrow> rat option \<Rightarrow> (lap \<times> rat) list \<Rightarrow> nat set" where
  "clean_labels cols threshold ahead [] = {}"
| "clean_labels cols threshold ahead ((row, cum_time) # rest) =
     (if \<not> excluded row \<and>
         (case ahead of None \<Rightarrow> True | Some a \<Rightarrow> float_sub cols cum_time a \<ge> threshold)
      then {idx row} else {})
     \<union> clean_labels cols threshold (Some cum_time) rest"

definition labels_2025 :: "columns \<Rightarrow> rat \<Rightarrow> lap list \<Rightarrow> nat set" where
  "labels_2025 cols th df =
     (\<Union>n \<in> set (unique (map LapNumber (sorted_by_lap cols df))).
        clean_labels cols th None (lap_order (with_cumulative_time cols (sorted_by_lap cols df)) n))"

fun dirty_labels :: "columns \<Rightarrow> rat \<Rightarrow> (nat \<times> rat) list \<Rightarrow> nat set" where
  "dirty_labels cols threshold (a # b # rest) =
     (if float_sub cols (snd b) (snd a) < threshold then {fst b} else {})
     \<union> dirty_labels cols threshold (b # rest)"
| "dirty_labels cols threshold rest = {}"

definition labels_cumulative :: "columns \<Rightarrow> rat \<Rightarrow> lap list \<Rightarrow> nat set" where
  "labels_cumulative cols th df =
     (\<Union>n \<in> set (unique (map LapNumber df)).
        (if length (valid_cumtimes (with_cumsum cols df) n) < 2 then {}
         else dirty_labels cols th (sort_key snd (valid_cumtimes (with_cumsum cols df) n))))"

definition gap_labels :: "columns \<Rightarrow> rat \<Rightarrow> lap list \<Rightarrow> nat \<Rightarrow> nat set" where
  "gap_labels cols th R n =
     idx ` {row \<in> set (lap_data_by_position R n).
              gap_row_dirty cols th (lap_data_by_position R n) row}"

text \<open>
  The frame the multi-season classifier returns when it returns: \<open>detect_clean_air\<close>
  without the exception.
\<close>

definition clean_air_frame :: "columns \<Rightarrow> rat \<Rightarrow> lap list \<Rightarrow> lap list" where
  "clean_air_frame cols threshold laps_df =
     (let df = map (\<lambda>r. r\<lparr>col_clean_air_flag := True\<rparr>) laps_df
      in if has_gap_to_leader cols df then detect_clean_air_from_gap cols threshold df
         else mark_cumulative_gaps cols threshold (sort_key driver_lap_key df))"

text \<open>
  The mode selection as the specification words it: the gap metric is present for at
  least 50% of the laps at the lap number, for comparison with \<open>has_gap_to_leader\<close>.
\<close>

definition spec_gap_present_at :: "lap list \<Rightarrow> nat \<Rightarrow> bool" where
  "spec_gap_present_at laps_df lap_num =
     (length (filter (\<lambda>r. LapNumber r = lap_num) laps_df)
        \<le> 2 * length (filter (\<lambda>r. LapNumber r = lap_num \<and> GapToLeader r \<noteq> None) laps_df))"

section \<open>Example races\<close>

text \<open>
  A green-flag lap of driver \<open>d\<close> with index label \<open>i\<close>, lap number \<open>n\<close> and duration
  \<open>t\<close>, on soft tyres, without pit markers.
\<close>

definition mk_lap :: "nat \<Rightarrow> string \<Rightarrow> nat \<Rightarrow> rat \<Rightarrow> lap" where
  "mk_lap i d n t =
     \<lparr>idx = i, DriverNumber = Some d, Driver = [], LapNumber = n, LapTime = Some t,
      PitInTime = None, PitOutTime = None, Compound = Str ''SOFT'', TyreLife = None,
      TrackStatus = Some ''1'', IsAccurate = Some True, GapToLeader = None, Position = None,
      col_stint_id = 0, col_stint_lap_index = 0, is_in_lap_detected = False,
      is_out_lap_detected = False, is_pit_lap_detected = False, col_clean_air_flag = False\<rparr>"

text \<open>
  The end-to-end scenario of the specification: two drivers, three laps each; lap 2 of
  driver 1 carries a pit-out marker and a compound change.
\<close>

definition scenario_laps :: "lap list" where
  "scenario_laps =
     [mk_lap 0 ''1'' 1 90, mk_lap 1 ''2'' 1 91,
      (mk_lap 2 ''1'' 2 95)\<lparr>PitOutTime := Some 100, Compound := Str ''HARD''\<rparr>, mk_lap 3 ''2'' 2 91,
      (mk_lap 4 ''1'' 3 89)\<lparr>Compound := Str ''HARD''\<rparr>, mk_lap 5 ''2'' 3 91]"

text \<open>
  The scenario with the duration of one lap missing and the accuracy flag missing or
  false on others; a race in which the duration of driver 2's lap 2 is missing; a single
  lap without a duration.
\<close>

definition one_missing_laps :: "lap list" where
  "one_missing_laps =
     [mk_lap 0 ''1'' 1 90, mk_lap 1 ''2'' 1 91,
      mk_lap 2 ''1'' 2 95, (mk_lap 3 ''2'' 2 91)\<lparr>LapTime := None, IsAccurate := None\<rparr>,
      (mk_lap 4 ''1'' 3 89)\<lparr>IsAccurate := None\<rparr>, (mk_lap 5 ''2'' 3 91)\<lparr>IsAccurate := Some False\<rparr>]"

definition missing_prior_laps :: "lap list" where
  "missing_prior_laps =
     [mk_lap 0 ''1'' 1 90, mk_lap 1 ''2'' 1 91,
      mk_lap 2 ''1'' 2 90, (mk_lap 3 ''2'' 2 91)\<lparr>LapTime := None\<rparr>,
      mk_lap 4 ''1'' 3 90, mk_lap 5 ''2'' 3 91]"

definition lone_lap :: lap where
  "lone_lap = (mk_lap 0 ''1'' 1 90)\<lparr>LapTime := None\<rparr>"

text \<open>
  A frame without optional columns and one with all of them; one lap of three cars with
  gaps of 0, 0.5 and 3 seconds; a race whose gaps and positions are reported on lap 1
  only. The durations and gaps of the example races are whole and half seconds below
  1000, on which float64 sums and differences are exact: the examples take the exact
  operations for the float64 ones.
\<close>

definition no_columns :: columns where
  "no_columns = \<lparr>has_GapToLeader = False, has_Position = False, has_Driver = False,
                  float_add = (+), float_sub = (-), float_cumsum = sum_list\<rparr>"

definition all_columns :: columns where
  "all_columns = \<lparr>has_GapToLeader = True, has_Position = True, has_Driver = True,
                   float_add = (+), float_sub = (-), float_cumsum = sum_list\<rparr>"

definition gap_laps :: "lap list" where
  "gap_laps =
     [(mk_lap 0 ''1'' 1 90)\<lparr>Driver := ''AAA'', GapToLeader := Some 0, Position := Some 1\<rparr>,
      (mk_lap 1 ''2'' 1 95)\<lparr>Driver := ''BBB'', GapToLeader := Some (1 / 2), Position := Some 2\<rparr>,
      (mk_lap 2 ''3'' 1 96)\<lparr>Driver := ''CCC'', GapToLeader := Some 3, Position := Some 3\<rparr>]"

definition partial_gap_laps :: "lap list" where
  "partial_gap_laps =
     [(mk_lap 0 ''1'' 1 90)\<lparr>Driver := ''AAA'', GapToLeader := Some 0, Position := Some 1\<rparr>,
      (mk_lap 1 ''2'' 1 95)\<lparr>Driver := ''BBB'', GapToLeader := Some (1 / 2), Position := Some 2\<rparr>,
      (mk_lap 2 ''1'' 2 90)\<lparr>Driver := ''AAA''\<rparr>, (mk_lap 3 ''2'' 2 95)\<lparr>Driver := ''BBB''\<rparr>,
      (mk_lap 4 ''1'' 3 90)\<lparr>Driver := ''AAA''\<rparr>, (mk_lap 5 ''2'' 3 95)\<lparr>Driver := ''BBB''\<rparr>]"

text \<open>
  A session with two known drivers.
\<close>

definition scenario_session :: session where
  "scenario_session =
     \<lparr>EventName = ''Test Grand Prix'', laps = scenario_laps,
      get_driver = (\<lambda>n. if n = ''1'' then Some \<lparr>Abbreviation = ''AAA'', FirstName = ''Ann'', LastName = ''Alpha''\<rparr>
                         else if n = ''2'' then Some \<lparr>Abbreviation = ''BBB'', FirstName = ''Bob'', LastName = ''Beta''\<rparr>
                         else None)\<rparr>"

text \<open>
  A stored row and a proposed row with the same conflict key and different values
  everywhere else; a connection with an empty table and one that holds the stored row.
\<close>

definition stored_row :: lap_record where
  "stored_row =
     \<lparr>season = 2024, round_number = 1, track_id = ''test_grand_prix'', driver_id = ''ann_alpha'',
      session_type = ''Q'', lap_number = 2, stint_id = 1, stint_lap_index = 2,
      lap_time_seconds = 95, is_valid_lap = True, is_pit_lap = False, is_out_lap = False,
      is_in_lap = False, clean_air_flag = False, compound = Str ''SOFT'', tyre_age_laps = Some 2\<rparr>"

definition proposed_row :: lap_record where
  "proposed_row =
     \<lparr>season = 2024, round_number = 1, track_id = ''test_grand_prix'', driver_id = ''ann_alpha'',
      session_type = ''R'', lap_number = 2, stint_id = 2, stint_lap_index = 1,
      lap_time_seconds = 96, is_valid_lap = False, is_pit_lap = True, is_out_lap = True,
      is_in_lap = True, clean_air_flag = True, compound = Str ''HARD'', tyre_age_laps = Some 1\<rparr>"

definition empty_conn :: conn where
  "empty_conn = \<lparr>table = [], snapshot = None\<rparr>"

definition loaded_conn :: conn where
  "loaded_conn = \<lparr>table = [stored_row], snapshot = None\<rparr>"

section \<open>Properties of the segmentation\<close>

lemma set_unique: "set (unique xs) = set xs"
  by (simp add: unique_def)

lemma distinct_unique: "distinct (unique xs)"
  by (simp add: unique_def)

lemma assign_masked_length: "length (assign_masked upd m vs rs) = length rs"
  by (induction upd m vs rs rule: assign_masked.induct) simp_all

lemma assign_masked_filter_other:
  assumes "\<And>r v. p (upd r v) = p r" and "\<And>r. m r \<Longrightarrow> \<not> p r"
  shows "filter p (assign_masked upd m vs rs) = filter p rs"
  using assms by (induction upd m vs rs rule: assign_masked.induct) simp_all

lemma assign_masked_filter_self:
  assumes "\<And>r v. m (upd r v) = m r" and "length vs = length (filter m rs)"
  shows "filter m (assign_masked upd m vs rs) = map2 upd (filter m rs) vs"
  using assms by (induction upd m vs rs rule: assign_masked.induct) (simp_all split: if_splits)

lemma foldl_assign_masked:
  assumes dn: "\<And>r v. DriverNumber (upd r v) = DriverNumber r"
    and len: "\<And>rs. length (loop rs) = length rs"
    and dist: "distinct ds"
  shows "filter (driver_mask (Some d))
           (foldl (\<lambda>df driver. assign_masked upd (driver_mask driver)
                      (loop (filter (driver_mask driver) df)) df) df ds)
         = (if Some d \<in> set ds
            then map2 upd (filter (driver_mask (Some d)) df) (loop (filter (driver_mask (Some d)) df))
            else filter (driver_mask (Some d)) df)"
  using dist
proof (induction ds arbitrary: df)
  case Nil
  then show ?case by simp
next
  case (Cons x ds)
  let ?step = "\<lambda>df driver. assign_masked upd (driver_mask driver)
                      (loop (filter (driver_mask driver) df)) df"
  have mk: "\<And>e r v. driver_mask e (upd r v) = driver_mask e r"
    by (simp add: driver_mask_def dn)
  show ?case
  proof (cases "x = Some d")
    case True
    with Cons.prems have notin: "Some d \<notin> set ds" by simp
    have "filter (driver_mask (Some d)) (?step df x)
          = map2 upd (filter (driver_mask (Some d)) df) (loop (filter (driver_mask (Some d)) df))"
      unfolding True by (rule assign_masked_filter_self) (simp_all add: mk len)
    with Cons.IH[of "?step df x"] Cons.prems notin True show ?thesis by simp
  next
    case False
    have same: "filter (driver_mask (Some d)) (?step df x) = filter (driver_mask (Some d)) df"
    proof (rule assign_masked_filter_other)
      show "\<And>r v. driver_mask (Some d) (upd r v) = driver_mask (Some d) r" by (rule mk)
      show "\<And>r. driver_mask x r \<Longrightarrow> \<not> driver_mask (Some d) r"
        using False by (auto simp: driver_mask_def)
    qed
    with Cons.IH[of "?step df x"] Cons.prems False show ?thesis by auto
  qed
qed

lemma sorted_filter_fst:
  "sorted (map (\<lambda>r. (f r, g r)) xs) \<Longrightarrow> sorted (map g (filter (\<lambda>r. f r = c) xs))"
  by (induction xs) (auto simp: less_eq_prod_def)

lemma stint_pit_loop_length: "length (stint_pit_loop cs sl pc pp rows) = length rows"
  by (induction rows arbitrary: cs sl pc pp) (simp_all add: Let_def)

lemma stint_loop_length: "length (stint_loop cs sl pc rows) = length rows"
  by (induction rows arbitrary: cs sl pc) (simp_all add: Let_def)

lemma stint_pit_loop_chain:
  "stint_chain (cs, sl) (map (\<lambda>v. (fst v, fst (snd v))) (stint_pit_loop cs (Suc sl) pc pp rows))"
  by (induction rows arbitrary: cs sl pc pp) (auto simp: Let_def stint_step_def)

lemma stint_pit_loop_first:
  "rows \<noteq> [] \<Longrightarrow> fst (hd (stint_pit_loop cs sl PyNone pp rows)) = cs \<and> fst (snd (hd (stint_pit_loop cs sl PyNone pp rows))) = sl"
  by (cases rows) (simp_all add: Let_def)

lemma stint_loop_chain:
  "stint_chain (cs, sl) (stint_loop cs (Suc sl) pc rows)"
  by (induction rows arbitrary: cs sl pc) (auto simp: Let_def stint_step_def)

lemma stint_loop_first:
  "rows \<noteq> [] \<Longrightarrow> hd (stint_loop cs sl PyNone rows) = (cs, sl)"
  by (cases rows) (simp_all add: Let_def)

lemma stint_chain_nth:
  "stint_chain a bs \<Longrightarrow> Suc k < length bs \<Longrightarrow> stint_step (bs ! k) (bs ! Suc k)"
proof (induction bs arbitrary: a k)
  case Nil
  then show ?case by simp
next
  case (Cons b bs)
  show ?case
  proof (cases k)
    case 0
    with Cons.prems show ?thesis by (cases bs) simp_all
  next
    case (Suc j)
    with Cons.prems Cons.IH[of b j] show ?thesis by simp
  qed
qed

lemma stint_chain_pos:
  "stint_chain a bs \<Longrightarrow> b \<in> set bs \<Longrightarrow> 1 \<le> snd b"
  by (induction bs arbitrary: a) (auto simp: stint_step_def)

lemma driver_mask_Some: "driver_mask (Some d) = (\<lambda>r. DriverNumber r = Some d)"
  by (rule ext) (simp add: driver_mask_def)

lemma driver_rows_sorted:
  "sorted (map LapNumber (driver_rows d (sort_key driver_lap_key laps_df)))"
proof -
  let ?f = "\<lambda>r. case DriverNumber r of None \<Rightarrow> (1::nat, [] :: string) | Some e \<Rightarrow> (0, e)"
  have "sorted (map (\<lambda>r. (?f r, LapNumber r)) (sort_key driver_lap_key laps_df))"
    using sorted_sort_key[of driver_lap_key laps_df] by (simp add: driver_lap_key_def[abs_def])
  then have s2: "sorted (map LapNumber (filter (\<lambda>r. ?f r = (0, d)) (sort_key driver_lap_key laps_df)))"
    by (rule sorted_filter_fst)
  have eq: "(\<lambda>r. ?f r = (0, d)) = (\<lambda>r. DriverNumber r = Some d)"
    by (rule ext) (simp split: option.splits)
  show ?thesis using s2 unfolding driver_rows_def eq .
qed

lemma per_driver_result:
  assumes dn: "\<And>r v. DriverNumber (upd r v) = DriverNumber r"
    and len: "\<And>rs. length (loop rs) = length rs"
  shows "driver_rows d
           (foldl (\<lambda>df driver. assign_masked upd (driver_mask driver)
                      (loop (filter (driver_mask driver) df)) df) df (unique (map DriverNumber df)))
         = map2 upd (driver_rows d df) (loop (driver_rows d df))"
proof (cases "Some d \<in> set (map DriverNumber df)")
  case True
  then show ?thesis
    using foldl_assign_masked[of upd loop "unique (map DriverNumber df)" d df, OF dn len distinct_unique]
    by (simp add: driver_rows_def driver_mask_Some set_unique)
next
  case False
  then have "driver_rows d df = []"
    by (force simp: driver_rows_def filter_empty_conv image_iff)
  with False show ?thesis
    using foldl_assign_masked[of upd loop "unique (map DriverNumber df)" d df, OF dn len distinct_unique]
    by (simp add: driver_rows_def driver_mask_Some set_unique)
qed

lemma stint_monotone_chain:
  assumes srt: "sorted (map LapNumber ds)"
    and fst1: "ds \<noteq> [] \<Longrightarrow> col_stint_id (hd ds) = 1 \<and> col_stint_lap_index (hd ds) = 1"
    and ch: "stint_chain a (map (\<lambda>r. (col_stint_id r, col_stint_lap_index r)) ds)"
  shows "stint_monotone ds"
  unfolding stint_monotone_def
proof (intro conjI allI impI)
  fix k assume k: "Suc k < length ds"
  let ?p = "map (\<lambda>r. (col_stint_id r, col_stint_lap_index r)) ds"
  from k have st: "stint_step (?p ! k) (?p ! Suc k)"
    using stint_chain_nth[OF ch, of k] by simp
  from k have "k < length ?p" by simp
  then have "?p ! k \<in> set ?p" by (rule nth_mem)
  then have pos: "1 \<le> snd (?p ! k)" using stint_chain_pos[OF ch] by blast
  from k have e: "?p ! k = (col_stint_id (ds ! k), col_stint_lap_index (ds ! k))"
    "?p ! Suc k = (col_stint_id (ds ! Suc k), col_stint_lap_index (ds ! Suc k))" by simp_all
  from st pos show "col_stint_id (ds ! k) \<le> col_stint_id (ds ! Suc k)"
    unfolding e by (auto simp: stint_step_def)
  from st pos show "(col_stint_lap_index (ds ! Suc k) = 1) = (col_stint_id (ds ! Suc k) \<noteq> col_stint_id (ds ! k))"
    unfolding e by (auto simp: stint_step_def)
  assume "col_stint_id (ds ! Suc k) = col_stint_id (ds ! k)"
  with st pos show "col_stint_lap_index (ds ! Suc k) = col_stint_lap_index (ds ! k) + 1"
    unfolding e by (auto simp: stint_step_def)
qed (use srt fst1 in auto)

lemma map2_proj:
  "length vs = length rs \<Longrightarrow> (\<And>r v. f (upd r v) = g v) \<Longrightarrow> map f (map2 upd rs vs) = map g vs"
  by (induction rs vs rule: list_induct2') simp_all

lemma map2_keep:
  "length vs = length rs \<Longrightarrow> (\<And>r v. f (upd r v) = f r) \<Longrightarrow> map f (map2 upd rs vs) = map f rs"
  by (induction rs vs rule: list_induct2') simp_all

lemma driver_rows_map:
  "(\<And>r. DriverNumber (f r) = DriverNumber r) \<Longrightarrow> driver_rows d (map f df) = map f (driver_rows d df)"
  by (simp add: driver_rows_def filter_map comp_def)

lemma detect_stints_and_pit_laps_monotone:
  "stint_monotone (driver_rows d (detect_stints_and_pit_laps laps_df))"
proof -
  let ?df = "map init_stint_pit (sort_key driver_lap_key laps_df)"
  let ?rs = "driver_rows d ?df"
  let ?vs = "stint_pit_loop 1 1 PyNone False ?rs"
  let ?ds = "map2 set_stint_pit ?rs ?vs"
  have res: "driver_rows d (detect_stints_and_pit_laps laps_df) = ?ds"
    unfolding detect_stints_and_pit_laps_def Let_def
    by (rule per_driver_result) (simp_all add: set_stint_pit_def stint_pit_loop_length split: prod.splits)
  have len: "length ?vs = length ?rs" by (simp add: stint_pit_loop_length)
  have rs: "?rs = map init_stint_pit (driver_rows d (sort_key driver_lap_key laps_df))"
    by (rule driver_rows_map) (simp add: init_stint_pit_def)
  have laps: "map LapNumber ?ds = map LapNumber ?rs"
    by (rule map2_keep[OF len]) (simp add: set_stint_pit_def split: prod.splits)
  have "map LapNumber ?rs = map LapNumber (driver_rows d (sort_key driver_lap_key laps_df))"
    unfolding rs by (simp add: init_stint_pit_def comp_def)
  with laps have srt: "sorted (map LapNumber ?ds)" by (simp add: driver_rows_sorted)
  have cols: "map (\<lambda>r. (col_stint_id r, col_stint_lap_index r)) ?ds = map (\<lambda>v. (fst v, fst (snd v))) ?vs"
    by (rule map2_proj[OF len]) (simp add: set_stint_pit_def split: prod.splits)
  have ch: "stint_chain (1, 0) (map (\<lambda>r. (col_stint_id r, col_stint_lap_index r)) ?ds)"
    unfolding cols using stint_pit_loop_chain[of 1 0 PyNone False ?rs] by simp
  have first: "col_stint_id (hd ?ds) = 1 \<and> col_stint_lap_index (hd ?ds) = 1" if "?ds \<noteq> []"
  proof -
    from that len have ne: "?rs \<noteq> []" by auto
    then have "?vs \<noteq> []" using len by auto
    then have "hd (map (\<lambda>r. (col_stint_id r, col_stint_lap_index r)) ?ds) = (fst (hd ?vs), fst (snd (hd ?vs)))"
      unfolding cols by (simp add: hd_map)
    moreover have "hd (map (\<lambda>r. (col_stint_id r, col_stint_lap_index r)) ?ds) = (col_stint_id (hd ?ds), col_stint_lap_index (hd ?ds))"
      using that by (simp add: hd_map)
    ultimately show ?thesis using stint_pit_loop_first[OF ne, of 1 1 False] by simp
  qed
  show ?thesis unfolding res by (rule stint_monotone_chain[OF srt first ch])
qed

lemma detect_stints_monotone:
  "stint_monotone (driver_rows d (detect_stints laps_df))"
proof -
  let ?df = "map init_stint (sort_key driver_lap_key laps_df)"
  let ?rs = "driver_rows d ?df"
  let ?vs = "stint_loop 1 1 PyNone ?rs"
  let ?ds = "map2 set_stint ?rs ?vs"
  have res: "driver_rows d (detect_stints laps_df) = ?ds"
    unfolding detect_stints_def Let_def
    by (rule per_driver_result) (simp_all add: set_stint_def stint_loop_length split: prod.splits)
  have len: "length ?vs = length ?rs" by (simp add: stint_loop_length)
  have rs: "?rs = map init_stint (driver_rows d (sort_key driver_lap_key laps_df))"
    by (rule driver_rows_map) (simp add: init_stint_def)
  have laps: "map LapNumber ?ds = map LapNumber ?rs"
    by (rule map2_keep[OF len]) (simp add: set_stint_def split: prod.splits)
  have "map LapNumber ?rs = map LapNumber (driver_rows d (sort_key driver_lap_key laps_df))"
    unfolding rs by (simp add: init_stint_def comp_def)
  with laps have srt: "sorted (map LapNumber ?ds)" by (simp add: driver_rows_sorted)
  have cols: "map (\<lambda>r. (col_stint_id r, col_stint_lap_index r)) ?ds = map (\<lambda>v. v) ?vs"
    by (rule map2_proj[OF len]) (simp add: set_stint_def split: prod.splits)
  have ch: "stint_chain (1, 0) (map (\<lambda>r. (col_stint_id r, col_stint_lap_index r)) ?ds)"
    unfolding cols using stint_loop_chain[of 1 0 PyNone ?rs] by simp
  have first: "col_stint_id (hd ?ds) = 1 \<and> col_stint_lap_index (hd ?ds) = 1" if "?ds \<noteq> []"
  proof -
    from that len have ne: "?rs \<noteq> []" by auto
    then have "?vs \<noteq> []" using len by auto
    then have "hd (map (\<lambda>r. (col_stint_id r, col_stint_lap_index r)) ?ds) = hd ?vs"
      unfolding cols by simp
    moreover have "hd (map (\<lambda>r. (col_stint_id r, col_stint_lap_index r)) ?ds) = (col_stint_id (hd ?ds), col_stint_lap_index (hd ?ds))"
      using that by (simp add: hd_map)
    ultimately show ?thesis using stint_loop_first[OF ne, of 1 1] by simp
  qed
  show ?thesis unfolding res by (rule stint_monotone_chain[OF srt first ch])
qed

text \<open>
  C4. For every driver of a race, in both scripts: the driver's rows come out in ascending
  lap-number order; the first of them is in stint 1 at stint-local index 1, whatever its
  compound; from each lap to the next the stint id does not decrease, the index is 1
  exactly when the stint id changed, and it is one more than the index before when the
  stint id stayed.
\<close>

theorem stint_monotonicity:
  "stint_monotone (driver_rows d (detect_stints_and_pit_laps laps_df)) \<and>
   stint_monotone (driver_rows d (detect_stints laps_df))"
  by (simp add: detect_stints_and_pit_laps_monotone detect_stints_monotone)

theorem stint_monotonicity_witness:
  "stint_monotone (driver_rows ''1'' (detect_stints_and_pit_laps scenario_laps)) \<and>
   stint_monotone (driver_rows ''1'' (detect_stints scenario_laps)) \<and>
   map (\<lambda>r. (LapNumber r, col_stint_id r, col_stint_lap_index r))
     (driver_rows ''1'' (detect_stints_and_pit_laps scenario_laps)) = [(1, 1, 1), (2, 2, 1), (3, 2, 2)] \<and>
   map (\<lambda>r. (LapNumber r, col_stint_id r, col_stint_lap_index r))
     (driver_rows ''1'' (detect_stints scenario_laps)) = [(1, 1, 1), (2, 2, 1), (3, 2, 2)]"
proof -
  have "map (\<lambda>r. (LapNumber r, col_stint_id r, col_stint_lap_index r))
     (driver_rows ''1'' (detect_stints_and_pit_laps scenario_laps)) = [(1, 1, 1), (2, 2, 1), (3, 2, 2)]"
    by code_simp
  moreover have "map (\<lambda>r. (LapNumber r, col_stint_id r, col_stint_lap_index r))
     (driver_rows ''1'' (detect_stints scenario_laps)) = [(1, 1, 1), (2, 2, 1), (3, 2, 2)]"
    by code_simp
  ultimately show ?thesis using stint_monotonicity[of "''1''" scenario_laps] by simp
qed

section \<open>Properties of the transformer\<close>

lemma raw_simps [simp]:
  "raw (r\<lparr>col_clean_air_flag := b\<rparr>) = raw r"
  "raw (set_stint_pit r v) = raw r"
  "raw (set_stint r w) = raw r"
  "raw (init_stint_pit r) = raw r"
  "raw (init_stint r) = raw r"
  by (simp_all add: raw_def set_stint_pit_def set_stint_def init_stint_pit_def init_stint_def
      split: prod.splits)

lemma raw_fields [simp]:
  "idx (raw r) = idx r" "DriverNumber (raw r) = DriverNumber r" "Driver (raw r) = Driver r"
  "LapNumber (raw r) = LapNumber r" "LapTime (raw r) = LapTime r"
  "PitInTime (raw r) = PitInTime r" "PitOutTime (raw r) = PitOutTime r"
  "Compound (raw r) = Compound r" "TyreLife (raw r) = TyreLife r"
  "TrackStatus (raw r) = TrackStatus r" "IsAccurate (raw r) = IsAccurate r"
  "GapToLeader (raw r) = GapToLeader r" "Position (raw r) = Position r"
  by (simp_all add: raw_def)

lemma raw_assign_masked:
  "(\<And>r v. raw (upd r v) = raw r) \<Longrightarrow> map raw (assign_masked upd m vs df) = map raw df"
  by (induction upd m vs df rule: assign_masked.induct) simp_all

lemma raw_foldl:
  "(\<And>df x. map raw (step df x) = map raw df) \<Longrightarrow> map raw (foldl step df xs) = map raw df"
  by (induction xs arbitrary: df) simp_all

lemma raw_set_clean_air: "map raw (set_clean_air i v df) = map raw df"
  by (simp add: set_clean_air_def comp_def)

lemma raw_mark_dirty_gaps: "map raw (mark_dirty_gaps cols th vs df) = map raw df"
  by (induction cols th vs df rule: mark_dirty_gaps.induct) (simp_all add: raw_set_clean_air)

lemma raw_classify_lap: "map raw (classify_lap cols th ahead rows df) = map raw df"
  by (induction cols th ahead rows df rule: classify_lap.induct)
     (simp_all add: raw_set_clean_air split: option.splits)

lemma raw_detect_stints_and_pit_laps:
  "map raw (detect_stints_and_pit_laps df) = map raw (sort_key driver_lap_key df)"
  unfolding detect_stints_and_pit_laps_def Let_def
  by (subst raw_foldl) (simp_all add: raw_assign_masked comp_def)

lemma raw_detect_stints:
  "map raw (detect_stints df) = map raw (sort_key driver_lap_key df)"
  unfolding detect_stints_def Let_def
  by (subst raw_foldl) (simp_all add: raw_assign_masked comp_def)

lemma raw_detect_clean_air_from_gap:
  "map raw (detect_clean_air_from_gap cols th df) = map raw df"
  unfolding detect_clean_air_from_gap_def
  by (rule raw_foldl) (simp add: Let_def raw_foldl raw_set_clean_air)

lemma raw_mark_cumulative_gaps:
  "map raw (mark_cumulative_gaps cols th df) = map raw df"
  unfolding mark_cumulative_gaps_def Let_def
  by (subst raw_foldl) (simp_all add: raw_mark_dirty_gaps)

lemma mset_raw_sort: "mset (map raw (sort_key k df)) = mset (map raw df)"
  by simp

lemma mset_raw_clean_air_frame:
  "mset (map raw (clean_air_frame cols th df)) = mset (map raw df)"
proof -
  let ?df = "map (\<lambda>r. r\<lparr>col_clean_air_flag := True\<rparr>) df"
  have a: "map raw ?df = map raw df" by (simp add: comp_def)
  have "mset (map raw (sort_key driver_lap_key ?df)) = mset (map raw ?df)"
    by (rule mset_raw_sort)
  then have b: "mset (map raw (sort_key driver_lap_key ?df)) = mset (map raw df)"
    unfolding a .
  show ?thesis
    unfolding clean_air_frame_def Let_def
    by (simp only: raw_detect_clean_air_from_gap raw_mark_cumulative_gaps a b if_distrib[of "\<lambda>x. mset (map raw x)"] if_cancel)
qed

text \<open>
  The multi-season classifier raises only on a frame that has rows and no duration at
  all, as on the single lap without a duration; on any other frame it returns
  \<open>clean_air_frame\<close>.
\<close>

lemma detect_clean_air_lone_lap:
  "LapTime lone_lap = None \<and> detect_clean_air no_columns 2 [lone_lap] = Inl TypeError"
  by code_simp

lemma sort_key_Nil_iff: "sort_key k xs = [] \<longleftrightarrow> xs = []"
  by (metis length_0_conv length_sort)

lemma detect_clean_air_raises:
  "detect_clean_air cols th df =
     (if \<not> has_gap_to_leader cols (map (\<lambda>r. r\<lparr>col_clean_air_flag := True\<rparr>) df) \<and>
         df \<noteq> [] \<and> (\<forall>r \<in> set df. LapTime r = None)
      then Inl TypeError else Inr (clean_air_frame cols th df))"
  by (auto simp: detect_clean_air_def detect_clean_air_from_cumulative_def clean_air_frame_def
        Let_def list_all_iff sort_key_Nil_iff)

lemma detect_clean_air_returns:
  "\<forall>r \<in> set df. LapTime r \<noteq> None \<Longrightarrow> detect_clean_air cols th df = Inr (clean_air_frame cols th df)"
  unfolding detect_clean_air_raises by (cases df) auto

lemma raw_detect_clean_air_2025:
  "map raw (detect_clean_air_2025 cols th df) = map raw df"
  by (simp add: detect_clean_air_2025_def Let_def comp_def)

lemma records_loop_fst:
  "fst (records_loop build df) = map (\<lambda>r. build r (the (LapTime r))) (filter (\<lambda>r. LapTime r \<noteq> None) df)"
  by (induction df) (auto split: prod.splits option.splits)

lemma records_loop_snd:
  "snd (records_loop build df) = length (filter (\<lambda>r. LapTime r = None) df)"
  by (induction df) (auto split: prod.splits option.splits)

lemma mset_raw_cong:
  assumes "mset (map raw A) = mset (map raw B)" and "\<And>r. g r = g (raw r)"
  shows "mset (map g A) = mset (map g B)"
proof -
  have "map g A = map g (map raw A)" "map g B = map g (map raw B)"
    using assms(2) by (simp_all add: comp_def)
  then have "mset (map g A) = image_mset g (mset (map raw A))"
    "mset (map g B) = image_mset g (mset (map raw B))"
    by (metis mset_map)+
  with assms(1) show ?thesis by simp
qed

lemma mset_raw_annotated:
  "mset (map raw (clean_air_frame cols th (detect_stints_and_pit_laps df))) = mset (map raw df)"
  by (simp only: mset_raw_clean_air_frame raw_detect_stints_and_pit_laps mset_raw_sort)

lemma mset_raw_annotated_2025:
  "mset (map raw (detect_clean_air_2025 cols th (detect_stints df))) = mset (map raw df)"
  by (simp only: raw_detect_clean_air_2025 raw_detect_stints mset_raw_sort)

lemma mset_raw_all:
  assumes "mset (map raw A) = mset (map raw B)" and "\<And>r. P r = P (raw r)"
    and "\<And>r. r \<in> set B \<Longrightarrow> P r"
  shows "\<forall>r \<in> set A. P r"
proof
  fix r assume "r \<in> set A"
  then have "raw r \<in> set (map raw A)" by simp
  then have "raw r \<in> set (map raw B)" using assms(1) by (metis set_mset_mset)
  then obtain s where "s \<in> set B" "raw s = raw r" by auto
  then show "P r" using assms(2)[of r] assms(2)[of s] assms(3)[of s] by simp
qed

lemma has_critical_raw: "has_critical r = has_critical (raw r)"
  by (simp add: has_critical_def)

lemma records_loop_critical:
  assumes "\<forall>r \<in> set df. has_critical r"
  shows "records_loop build df = (map (\<lambda>r. build r (the (LapTime r))) df, 0)"
proof -
  have "filter (\<lambda>r. LapTime r \<noteq> None) df = df" "filter (\<lambda>r. LapTime r = None) df = []"
    using assms by (auto simp: has_critical_def filter_empty_conv intro: filter_True)
  then show ?thesis
    using records_loop_fst[of build df] records_loop_snd[of build df]
    by (simp add: prod_eq_iff)
qed

lemma annotated_critical:
  "\<forall>r \<in> set (clean_air_frame cols th (detect_stints_and_pit_laps (filter has_critical laps_df))). has_critical r"
  by (rule mset_raw_all[where P = has_critical and B = "filter has_critical laps_df"])
     (simp_all only: mset_raw_annotated has_critical_raw[symmetric], simp)

lemma segmented_critical:
  "\<forall>r \<in> set (detect_stints_and_pit_laps (filter has_critical laps_df)). LapTime r \<noteq> None"
proof -
  have "mset (map raw (detect_stints_and_pit_laps (filter has_critical laps_df)))
          = mset (map raw (filter has_critical laps_df))"
    by (simp only: raw_detect_stints_and_pit_laps mset_raw_sort)
  then have "\<forall>r \<in> set (detect_stints_and_pit_laps (filter has_critical laps_df)). has_critical r"
    by (rule mset_raw_all[where P = has_critical]) (simp_all only: has_critical_raw[symmetric], simp)
  then show ?thesis unfolding has_critical_def by blast
qed

lemma annotated_critical_2025:
  "\<forall>r \<in> set (detect_clean_air_2025 cols th (detect_stints (filter has_critical laps_df))). has_critical r"
  by (rule mset_raw_all[where P = has_critical and B = "filter has_critical laps_df"])
     (simp_all only: mset_raw_annotated_2025 has_critical_raw[symmetric], simp)

text \<open>
  The multi-season transformer always returns: the frame it gives the classifier has a
  duration in every row.
\<close>

lemma transform_lap_data_eq:
  "transform_lap_data cols laps_df sess seas rnd tid im =
     Inr (map (\<lambda>r. build_record seas rnd tid (resolve_driver sess im) r (the (LapTime r)))
            (clean_air_frame cols CLEAN_AIR_GAP_THRESHOLD
               (detect_stints_and_pit_laps (filter has_critical laps_df))),
          count_log (length laps_df) (length laps_df - length (filter has_critical laps_df)) 0
            (length (filter has_critical laps_df)))"
proof -
  let ?ann = "clean_air_frame cols CLEAN_AIR_GAP_THRESHOLD
           (detect_stints_and_pit_laps (filter has_critical laps_df))"
  have "size (mset (map raw ?ann)) = size (mset (map raw (filter has_critical laps_df)))"
    by (simp only: mset_raw_annotated)
  then have len: "length ?ann = length (filter has_critical laps_df)"
    by (simp only: size_mset length_map)
  show ?thesis
    unfolding transform_lap_data_def Let_def detect_clean_air_returns[OF segmented_critical]
    by (simp add: records_loop_critical[OF annotated_critical] len)
qed

lemma transform_lap_data_2025_eq:
  "transform_lap_data_2025 cols laps_df sess seas rnd tid =
     (map (\<lambda>r. build_record_2025 seas rnd tid (resolve_driver_2025 sess) r (the (LapTime r)))
        (detect_clean_air_2025 cols CLEAN_AIR_GAP_THRESHOLD_2025
           (detect_stints (filter has_critical laps_df))),
      count_log (length laps_df) (length laps_df - length (filter has_critical laps_df)) 0
        (length (filter has_critical laps_df)))"
proof -
  let ?ann = "detect_clean_air_2025 cols CLEAN_AIR_GAP_THRESHOLD_2025
           (detect_stints (filter has_critical laps_df))"
  have "size (mset (map raw ?ann)) = size (mset (map raw (filter has_critical laps_df)))"
    by (simp only: mset_raw_annotated_2025)
  then have len: "length ?ann = length (filter has_critical laps_df)"
    by (simp only: size_mset length_map)
  show ?thesis
    unfolding transform_lap_data_2025_def Let_def
    by (simp add: records_loop_critical[OF annotated_critical_2025] len)
qed

text \<open>
  C8. The multi-season transformer returns, and drops exactly the laps without a duration
  or without a driver number, before anything else: its records are, lap for lap, the
  surviving input rows; their number is the input count minus the dropped count; the log
  reports the dropped count when it is positive; and the records are those of the
  surviving rows alone. With exactly one lap missing its duration and no driver number
  missing, \<open>N\<close> laps give \<open>N - 1\<close> records and a logged count of 1.
\<close>

theorem fail_closed_filtering:
  "\<exists>recs log.
     transform_lap_data cols laps_df sess seas rnd tid im = Inr (recs, log) \<and>
     mset (map (\<lambda>rec. (driver_id rec, lap_number rec, lap_time_seconds rec)) recs)
       = mset (map (\<lambda>row. (resolve_driver sess im (the (DriverNumber row)), LapNumber row,
                              round3 (the (LapTime row))))
                (filter has_critical laps_df)) \<and>
     length recs = length laps_df - length (filter (\<lambda>r. \<not> has_critical r) laps_df) \<and>
     log = [Transforming (length laps_df)]
           @ (if length (filter (\<lambda>r. \<not> has_critical r) laps_df) > 0
              then [Filtered_before (length (filter (\<lambda>r. \<not> has_critical r) laps_df))] else [])
           @ [Transformed (length laps_df - length (filter (\<lambda>r. \<not> has_critical r) laps_df))] \<and>
     map_sum id fst (transform_lap_data cols (filter has_critical laps_df) sess seas rnd tid im)
       = Inr recs \<and>
     (length (filter (\<lambda>r. LapTime r = None) laps_df) = 1 \<and> (\<forall>r \<in> set laps_df. DriverNumber r \<noteq> None)
        \<longrightarrow> length recs = length laps_df - 1 \<and>
            log = [Transforming (length laps_df), Filtered_before 1, Transformed (length laps_df - 1)])"
proof -
  let ?surv = "filter has_critical laps_df"
  let ?ann = "clean_air_frame cols CLEAN_AIR_GAP_THRESHOLD (detect_stints_and_pit_laps ?surv)"
  let ?dropped = "length (filter (\<lambda>r. \<not> has_critical r) laps_df)"
  let ?recs = "map (\<lambda>r. build_record seas rnd tid (resolve_driver sess im) r (the (LapTime r))) ?ann"
  let ?log = "count_log (length laps_df) (length laps_df - length ?surv) 0 (length ?surv)"
  let ?g = "\<lambda>r. (case DriverNumber r of Some d \<Rightarrow> resolve_driver sess im d | None \<Rightarrow> ''dnan'',
                  LapNumber r, round3 (the (LapTime r)))"
  have eq: "transform_lap_data cols laps_df sess seas rnd tid im = Inr (?recs, ?log)"
    by (rule transform_lap_data_eq)
  have split: "length laps_df = length ?surv + ?dropped"
    using sum_length_filter_compl[of has_critical laps_df] by simp
  have drop: "length laps_df - length ?surv = ?dropped" "length ?surv = length laps_df - ?dropped"
    using split by simp_all
  have "mset (map ?g ?ann) = mset (map ?g ?surv)"
    by (rule mset_raw_cong[OF mset_raw_annotated]) simp
  moreover have "map ?g ?surv = map (\<lambda>row. (resolve_driver sess im (the (DriverNumber row)), LapNumber row,
                            round3 (the (LapTime row)))) ?surv"
    by (rule map_cong) (auto simp: has_critical_def)
  ultimately have a: "mset (map (\<lambda>rec. (driver_id rec, lap_number rec, lap_time_seconds rec)) ?recs)
     = mset (map (\<lambda>row. (resolve_driver sess im (the (DriverNumber row)), LapNumber row,
                            round3 (the (LapTime row)))) ?surv)"
    by (simp add: comp_def build_record_def)
  have "size (mset (map raw ?ann)) = size (mset (map raw ?surv))"
    by (simp only: mset_raw_annotated)
  then have len: "length ?ann = length ?surv" by (simp only: size_mset length_map)
  have b: "length ?recs = length laps_df - ?dropped"
    by (simp add: len drop)
  have c: "?log = [Transforming (length laps_df)]
       @ (if ?dropped > 0 then [Filtered_before ?dropped] else [])
       @ [Transformed (length laps_df - ?dropped)]"
    by (simp add: count_log_def drop)
  have d: "map_sum id fst (transform_lap_data cols ?surv sess seas rnd tid im) = Inr ?recs"
    by (simp add: transform_lap_data_eq)
  have e: "?dropped = 1" if "length (filter (\<lambda>r. LapTime r = None) laps_df) = 1"
    and "\<forall>r \<in> set laps_df. DriverNumber r \<noteq> None"
  proof -
    have "filter (\<lambda>r. \<not> has_critical r) laps_df = filter (\<lambda>r. LapTime r = None) laps_df"
      by (rule filter_cong) (use that(2) in \<open>auto simp: has_critical_def\<close>)
    with that(1) show ?thesis by simp
  qed
  have f: "length (filter (\<lambda>r. LapTime r = None) laps_df) = 1 \<and> (\<forall>r \<in> set laps_df. DriverNumber r \<noteq> None)
      \<longrightarrow> length ?recs = length laps_df - 1 \<and>
          ?log = [Transforming (length laps_df), Filtered_before 1, Transformed (length laps_df - 1)]"
  proof (intro impI, elim conjE)
    assume h: "length (filter (\<lambda>r. LapTime r = None) laps_df) = 1" "\<forall>r \<in> set laps_df. DriverNumber r \<noteq> None"
    from e[OF h] b c show "length ?recs = length laps_df - 1 \<and>
          ?log = [Transforming (length laps_df), Filtered_before 1, Transformed (length laps_df - 1)]"
      by simp
  qed
  show ?thesis
    apply (rule exI[where x = ?recs])
    apply (rule exI[where x = ?log])
    by (intro conjI eq a b c d f)
qed

theorem fail_closed_filtering_witness:
  "length (filter (\<lambda>r. LapTime r = None) one_missing_laps) = 1 \<and>
   length one_missing_laps = 6 \<and>
   (\<exists>recs log.
      transform_lap_data no_columns one_missing_laps scenario_session 2024 1 ''test'' Map.empty
        = Inr (recs, log) \<and>
      length recs = 5 \<and> log = [Transforming 6, Filtered_before 1, Transformed 5])"
proof -
  have a: "length (filter (\<lambda>r. LapTime r = None) one_missing_laps) = 1"
    by (simp add: one_missing_laps_def mk_lap_def)
  have b: "\<forall>r \<in> set one_missing_laps. DriverNumber r \<noteq> None"
    by (simp add: one_missing_laps_def mk_lap_def)
  have c: "length one_missing_laps = 6" by (simp add: one_missing_laps_def)
  from fail_closed_filtering[of no_columns one_missing_laps scenario_session 2024 1 "''test''" Map.empty]
  obtain recs log where
    r: "transform_lap_data no_columns one_missing_laps scenario_session 2024 1 ''test'' Map.empty
          = Inr (recs, log)"
    and i: "length (filter (\<lambda>r. LapTime r = None) one_missing_laps) = 1 \<and>
            (\<forall>r \<in> set one_missing_laps. DriverNumber r \<noteq> None)
        \<longrightarrow> length recs = length one_missing_laps - 1 \<and>
            log = [Transforming (length one_missing_laps), Filtered_before 1,
                   Transformed (length one_missing_laps - 1)]"
    by blast
  from i[THEN mp, OF conjI[OF a b]]
  have "length recs = 5 \<and> log = [Transforming 6, Filtered_before 1, Transformed 5]"
    unfolding c by simp
  with r have "\<exists>recs log.
      transform_lap_data no_columns one_missing_laps scenario_session 2024 1 ''test'' Map.empty
        = Inr (recs, log) \<and>
      length recs = 5 \<and> log = [Transforming 6, Filtered_before 1, Transformed 5]"
    by blast
  with a c show ?thesis by blast
qed

text \<open>
  C10. In both scripts every record's \<open>is_valid_lap\<close> is true unless the accuracy flag of
  its input row is present and false: the records, as (driver, lap number, validity),
  are the surviving input rows as (driver, lap number, flag is not an explicit false).
  A missing flag therefore gives a valid lap.
\<close>

theorem validity_defaults_to_valid:
  "(\<exists>recs log.
      transform_lap_data cols laps_df sess seas rnd tid im = Inr (recs, log) \<and>
      mset (map (\<lambda>rec. (driver_id rec, lap_number rec, is_valid_lap rec)) recs)
        = mset (map (\<lambda>row. (resolve_driver sess im (the (DriverNumber row)), LapNumber row,
                               IsAccurate row \<noteq> Some False))
                 (filter has_critical laps_df))) \<and>
   mset (map (\<lambda>rec. (driver_id rec, lap_number rec, is_valid_lap rec))
          (fst (transform_lap_data_2025 cols laps_df sess seas rnd tid)))
     = mset (map (\<lambda>row. (resolve_driver_2025 sess (the (DriverNumber row)), LapNumber row,
                            IsAccurate row \<noteq> Some False))
              (filter has_critical laps_df))"
proof -
  let ?surv = "filter has_critical laps_df"
  let ?ann = "clean_air_frame cols CLEAN_AIR_GAP_THRESHOLD (detect_stints_and_pit_laps ?surv)"
  let ?ann' = "detect_clean_air_2025 cols CLEAN_AIR_GAP_THRESHOLD_2025 (detect_stints ?surv)"
  let ?recs = "map (\<lambda>r. build_record seas rnd tid (resolve_driver sess im) r (the (LapTime r))) ?ann"
  let ?log = "count_log (length laps_df) (length laps_df - length ?surv) 0 (length ?surv)"
  let ?g = "\<lambda>r. (case DriverNumber r of Some d \<Rightarrow> resolve_driver sess im d | None \<Rightarrow> ''dnan'',
                  LapNumber r, IsAccurate r \<noteq> Some False)"
  let ?g' = "\<lambda>r. (case DriverNumber r of Some d \<Rightarrow> resolve_driver_2025 sess d | None \<Rightarrow> ''Dnan'',
                  LapNumber r, IsAccurate r \<noteq> Some False)"
  have eq: "transform_lap_data cols laps_df sess seas rnd tid im = Inr (?recs, ?log)"
    by (rule transform_lap_data_eq)
  have "mset (map ?g ?ann) = mset (map ?g ?surv)"
    by (rule mset_raw_cong[OF mset_raw_annotated]) simp
  moreover have "map ?g ?surv = map (\<lambda>row. (resolve_driver sess im (the (DriverNumber row)), LapNumber row,
                            IsAccurate row \<noteq> Some False)) ?surv"
    by (rule map_cong) (auto simp: has_critical_def)
  ultimately have a: "mset (map (\<lambda>rec. (driver_id rec, lap_number rec, is_valid_lap rec)) ?recs)
     = mset (map (\<lambda>row. (resolve_driver sess im (the (DriverNumber row)), LapNumber row,
                            IsAccurate row \<noteq> Some False)) ?surv)"
    by (simp add: comp_def build_record_def valid_lap_def)
  have a': "\<exists>recs log.
      transform_lap_data cols laps_df sess seas rnd tid im = Inr (recs, log) \<and>
      mset (map (\<lambda>rec. (driver_id rec, lap_number rec, is_valid_lap rec)) recs)
        = mset (map (\<lambda>row. (resolve_driver sess im (the (DriverNumber row)), LapNumber row,
                               IsAccurate row \<noteq> Some False)) ?surv)"
    apply (rule exI[where x = ?recs])
    apply (rule exI[where x = ?log])
    by (intro conjI eq a)
  have "mset (map ?g' ?ann') = mset (map ?g' ?surv)"
    by (rule mset_raw_cong[OF mset_raw_annotated_2025]) simp
  moreover have "map ?g' ?surv = map (\<lambda>row. (resolve_driver_2025 sess (the (DriverNumber row)), LapNumber row,
                            IsAccurate row \<noteq> Some False)) ?surv"
    by (rule map_cong) (auto simp: has_critical_def)
  ultimately have b: "mset (map (\<lambda>rec. (driver_id rec, lap_number rec, is_valid_lap rec))
          (fst (transform_lap_data_2025 cols laps_df sess seas rnd tid)))
     = mset (map (\<lambda>row. (resolve_driver_2025 sess (the (DriverNumber row)), LapNumber row,
                            IsAccurate row \<noteq> Some False)) ?surv)"
    by (simp add: transform_lap_data_2025_eq comp_def build_record_2025_def valid_lap_def)
  show ?thesis by (intro conjI a' b)
qed

section \<open>Properties of the loader\<close>

lemma upsert_first_conflict:
  "\<forall>r \<in> set pre. conflict_key r \<noteq> conflict_key new \<Longrightarrow> conflict_key stored = conflict_key new
     \<Longrightarrow> upsert new (pre @ stored # post) = pre @ do_update stored new # post"
  by (induction pre) simp_all

text \<open>
  C7. When the proposed row meets a stored row with the same key (season, round,
  track_id, driver_id, lap_number), the upsert replaces the stored row, in place, by the
  stored row with session_type, stint_id, stint_lap_index, is_pit_lap, is_out_lap and
  is_in_lap taken from the proposed row; the stored lap time, compound and key stay.
\<close>

theorem upsert_on_conflict:
  "(\<forall>r \<in> set pre. conflict_key r \<noteq> conflict_key new) \<and> conflict_key stored = conflict_key new
   \<longrightarrow> execute_values None [new] (pre @ stored # post) = Inr (pre @ do_update stored new # post) \<and>
       session_type (do_update stored new) = session_type new \<and>
       stint_id (do_update stored new) = stint_id new \<and>
       stint_lap_index (do_update stored new) = stint_lap_index new \<and>
       is_pit_lap (do_update stored new) = is_pit_lap new \<and>
       is_out_lap (do_update stored new) = is_out_lap new \<and>
       is_in_lap (do_update stored new) = is_in_lap new \<and>
       lap_time_seconds (do_update stored new) = lap_time_seconds stored \<and>
       compound (do_update stored new) = compound stored \<and>
       conflict_key (do_update stored new) = conflict_key stored"
  by (simp add: upsert_first_conflict) (simp add: do_update_def conflict_key_def)

theorem upsert_on_conflict_witness:
  "conflict_key stored_row = conflict_key proposed_row \<and>
   execute_values None [proposed_row] [stored_row]
     = Inr [stored_row\<lparr>session_type := ''R'', stint_id := 2, stint_lap_index := 1,
                       is_pit_lap := True, is_out_lap := True, is_in_lap := True\<rparr>] \<and>
   lap_time_seconds (do_update stored_row proposed_row) = 95 \<and>
   compound (do_update stored_row proposed_row) = Str ''SOFT''"
proof -
  have k: "conflict_key stored_row = conflict_key proposed_row"
    by (simp add: conflict_key_def stored_row_def proposed_row_def)
  have d: "do_update stored_row proposed_row =
      stored_row\<lparr>session_type := ''R'', stint_id := 2, stint_lap_index := 1,
                       is_pit_lap := True, is_out_lap := True, is_in_lap := True\<rparr>"
    by (simp add: do_update_def proposed_row_def)
  have s: "lap_time_seconds stored_row = 95" "compound stored_row = Str ''SOFT''"
    by (simp_all add: stored_row_def)
  from upsert_on_conflict[of "[]" proposed_row stored_row "[]"] k
  have "execute_values None [proposed_row] [stored_row] = Inr [do_update stored_row proposed_row] \<and>
       lap_time_seconds (do_update stored_row proposed_row) = lap_time_seconds stored_row \<and>
       compound (do_update stored_row proposed_row) = compound stored_row"
    by simp
  with k s show ?thesis unfolding d by simp
qed

lemma count_rows_upsert_mono: "count_rows t seas rnd \<le> count_rows (upsert v t) seas rnd"
  by (induction t) (simp_all add: count_rows_def do_update_def)

lemma count_rows_upsert_pos:
  "season v = seas \<Longrightarrow> round_number v = rnd \<Longrightarrow> 0 < count_rows (upsert v t) seas rnd"
  by (induction t) (simp_all add: count_rows_def do_update_def conflict_key_def)

lemma count_rows_upsert_other:
  "season v \<noteq> seas \<or> round_number v \<noteq> rnd \<Longrightarrow> count_rows (upsert v t) seas rnd = count_rows t seas rnd"
  by (induction t) (auto simp: count_rows_def do_update_def conflict_key_def)

lemma execute_values_mono:
  "execute_values fault vs t = Inr t' \<Longrightarrow> count_rows t seas rnd \<le> count_rows t' seas rnd"
proof (induction vs arbitrary: fault t)
  case Nil
  then show ?case by simp
next
  case (Cons v vs)
  from Cons.prems have "execute_values (map_option (\<lambda>k. k - 1) fault) vs (upsert v t) = Inr t'"
    by (simp split: if_splits)
  from Cons.IH[OF this] count_rows_upsert_mono[of t seas rnd v] show ?case by simp
qed

lemma execute_values_pos:
  assumes "execute_values fault vs t = Inr t'" and "vs \<noteq> []"
    and "\<forall>v \<in> set vs. season v = seas \<and> round_number v = rnd"
  shows "0 < count_rows t' seas rnd"
proof (cases vs)
  case Nil
  with assms(2) show ?thesis by simp
next
  case (Cons v ws)
  with assms(1) have "execute_values (map_option (\<lambda>k. k - 1) fault) ws (upsert v t) = Inr t'"
    by (simp split: if_splits)
  from execute_values_mono[OF this, of seas rnd] count_rows_upsert_pos[of v seas rnd t] assms(3) Cons
  show ?thesis by simp
qed

lemma execute_values_raises:
  "k < length vs \<Longrightarrow> \<exists>t'. execute_values (Some k) vs t = Inl t'"
proof (induction vs arbitrary: k t)
  case Nil
  then show ?case by simp
next
  case (Cons v vs)
  then show ?case by (cases k) simp_all
qed

lemma execute_values_no_fault:
  "\<exists>t'. execute_values None vs t = Inr t'"
  by (induction vs arbitrary: t) simp_all

lemma sql_rollback_begin:
  "snapshot c = None \<Longrightarrow> sql_rollback ((sql_begin c)\<lparr>table := t\<rparr>) = c"
  by (simp add: sql_rollback_def sql_begin_def)

lemma sql_commit_begin:
  "snapshot c = None \<Longrightarrow> sql_commit ((sql_begin c)\<lparr>table := t\<rparr>) = c\<lparr>table := t\<rparr>"
  by (simp add: sql_commit_def sql_begin_def)

lemma table_sql_begin: "table (sql_begin c) = table c"
  by (simp add: sql_begin_def split: option.splits)

lemma transform_season:
  "\<forall>v \<in> set (fst (projr (transform_lap_data cols laps_df sess seas rnd tid im))). season v = seas \<and> round_number v = rnd"
  by (simp add: transform_lap_data_eq build_record_def)

lemma transform_season_2025:
  "\<forall>v \<in> set (fst (transform_lap_data_2025 cols laps_df sess seas rnd tid)). season v = seas \<and> round_number v = rnd"
  by (simp add: transform_lap_data_2025_eq build_record_2025_def)

lemma load_race_data_skips:
  "0 < count_rows (table c) seas rnd \<Longrightarrow>
   load_race_data c (Inr sess) fault cols seas rnd im
     = (c, \<lparr>status = Skipped, laps_inserted = 0,
            result_track_id = remove_quote (replace_space (py_lower (EventName sess))), error = None\<rparr>)"
  by (simp add: load_race_data_def check_race_already_loaded_def)

lemma load_race_data_2025_skips:
  "0 < count_rows (table c) seas rnd \<Longrightarrow>
   load_race_data_2025 c (Inr sess) fault cols seas rnd
     = (c, \<lparr>status = Skipped, laps_inserted = 0,
            result_track_id = replace_space (py_lower (EventName sess)), error = None\<rparr>)"
  by (simp add: load_race_data_2025_def check_race_already_loaded_def)

lemma load_race_data_Inr:
  "load_race_data c (Inr sess) fault cols seas rnd im =
     (if 0 < count_rows (table c) seas rnd
      then (c, \<lparr>status = Skipped, laps_inserted = 0,
                result_track_id = remove_quote (replace_space (py_lower (EventName sess))), error = None\<rparr>)
      else if laps sess = [] \<or> fst (projr (transform_lap_data cols (laps sess) sess seas rnd
                  (remove_quote (replace_space (py_lower (EventName sess)))) im)) = []
      then (c, \<lparr>status = Failed, laps_inserted = 0,
                result_track_id = remove_quote (replace_space (py_lower (EventName sess))),
                error = Some (if laps sess = [] then ''No lap data'' else ''No valid laps'')\<rparr>)
      else (case execute_values fault (fst (projr (transform_lap_data cols (laps sess) sess seas rnd
                  (remove_quote (replace_space (py_lower (EventName sess)))) im))) (table c) of
              Inr t \<Rightarrow> (sql_commit ((sql_begin c)\<lparr>table := t\<rparr>),
                        \<lparr>status = Success,
                         laps_inserted = length (fst (projr (transform_lap_data cols (laps sess) sess seas rnd
                             (remove_quote (replace_space (py_lower (EventName sess)))) im))),
                         result_track_id = remove_quote (replace_space (py_lower (EventName sess))),
                         error = None\<rparr>)
            | Inl t \<Rightarrow> (sql_rollback ((sql_begin c)\<lparr>table := t\<rparr>),
                        \<lparr>status = Failed, laps_inserted = 0,
                         result_track_id = remove_quote (replace_space (py_lower (EventName sess))),
                         error = Some ''insert failed''\<rparr>)))"
  by (simp add: load_race_data_def check_race_already_loaded_def Let_def table_sql_begin
        transform_lap_data_eq split: sum.splits)

lemma load_race_data_2025_Inr:
  "load_race_data_2025 c (Inr sess) fault cols seas rnd =
     (if 0 < count_rows (table c) seas rnd
      then (c, \<lparr>status = Skipped, laps_inserted = 0,
                result_track_id = replace_space (py_lower (EventName sess)), error = None\<rparr>)
      else if laps sess = [] \<or> fst (transform_lap_data_2025 cols (laps sess) sess seas rnd
                  (replace_space (py_lower (EventName sess)))) = []
      then (c, \<lparr>status = Failed, laps_inserted = 0,
                result_track_id = replace_space (py_lower (EventName sess)),
                error = Some (if laps sess = [] then ''No lap data'' else ''No valid laps'')\<rparr>)
      else (case execute_values fault (fst (transform_lap_data_2025 cols (laps sess) sess seas rnd
                  (replace_space (py_lower (EventName sess))))) (table c) of
              Inr t \<Rightarrow> (sql_commit ((sql_begin c)\<lparr>table := t\<rparr>),
                        \<lparr>status = Success,
                         laps_inserted = length (fst (transform_lap_data_2025 cols (laps sess) sess seas rnd
                             (replace_space (py_lower (EventName sess))))),
                         result_track_id = replace_space (py_lower (EventName sess)),
                         error = None\<rparr>)
            | Inl t \<Rightarrow> (sql_rollback ((sql_begin c)\<lparr>table := t\<rparr>),
                        \<lparr>status = Failed, laps_inserted = 0,
                         result_track_id = replace_space (py_lower (EventName sess)),
                         error = Some ''insert failed''\<rparr>)))"
  by (simp add: load_race_data_2025_def check_race_already_loaded_def Let_def table_sql_begin)

lemma load_race_data_Inl:
  "load_race_data c (Inl e) fault cols seas rnd im =
     (c, \<lparr>status = Failed, laps_inserted = 0, result_track_id = ''unknown'', error = Some e\<rparr>)"
  by (simp add: load_race_data_def)

lemma load_race_data_2025_Inl:
  "load_race_data_2025 c (Inl e) fault cols seas rnd =
     (c, \<lparr>status = Failed, laps_inserted = 0, result_track_id = ''unknown'', error = Some e\<rparr>)"
  by (simp add: load_race_data_2025_def)

lemma load_race_data_loaded_after:
  assumes "snapshot c = None" and "status (snd (load_race_data c fetched fault cols seas rnd im)) \<noteq> Failed"
  shows "0 < count_rows (table (fst (load_race_data c fetched fault cols seas rnd im))) seas rnd"
proof (cases fetched)
  case (Inl e)
  with assms(2) show ?thesis by (simp add: load_race_data_Inl)
next
  case (Inr sess)
  show ?thesis
    using assms execute_values_pos[OF _ _ transform_season]
    unfolding Inr load_race_data_Inr
    by (auto simp: sql_commit_begin split: if_splits sum.splits)
qed

lemma load_race_data_2025_loaded_after:
  assumes "snapshot c = None" and "status (snd (load_race_data_2025 c fetched fault cols seas rnd)) \<noteq> Failed"
  shows "0 < count_rows (table (fst (load_race_data_2025 c fetched fault cols seas rnd))) seas rnd"
proof (cases fetched)
  case (Inl e)
  with assms(2) show ?thesis by (simp add: load_race_data_2025_Inl)
next
  case (Inr sess)
  show ?thesis
    using assms execute_values_pos[OF _ _ transform_season_2025]
    unfolding Inr load_race_data_2025_Inr
    by (auto simp: sql_commit_begin split: if_splits sum.splits)
qed

lemma load_race_data_failed_unchanged:
  assumes "snapshot c = None" and "status (snd (load_race_data c fetched fault cols seas rnd im)) = Failed"
  shows "fst (load_race_data c fetched fault cols seas rnd im) = c"
proof (cases fetched)
  case (Inl e)
  then show ?thesis by (simp add: load_race_data_Inl)
next
  case (Inr sess)
  show ?thesis
    using assms unfolding Inr load_race_data_Inr
    by (auto simp: sql_rollback_begin split: if_splits sum.splits)
qed

lemma load_race_data_2025_failed_unchanged:
  assumes "snapshot c = None" and "status (snd (load_race_data_2025 c fetched fault cols seas rnd)) = Failed"
  shows "fst (load_race_data_2025 c fetched fault cols seas rnd) = c"
proof (cases fetched)
  case (Inl e)
  then show ?thesis by (simp add: load_race_data_2025_Inl)
next
  case (Inr sess)
  show ?thesis
    using assms unfolding Inr load_race_data_2025_Inr
    by (auto simp: sql_rollback_begin split: if_splits sum.splits)
qed

lemma load_race_data_snapshot:
  "snapshot c = None \<Longrightarrow> snapshot (fst (load_race_data c fetched fault cols seas rnd im)) = None"
  by (cases fetched)
     (auto simp: load_race_data_Inl load_race_data_Inr sql_rollback_begin sql_commit_begin
       split: sum.splits)

lemma process_rounds_snoc:
  "process_rounds c fetch fault cols seas im (rounds @ [rnd]) =
     (case process_rounds c fetch fault cols seas im rounds of
        (c1, metrics) \<Rightarrow>
          (case load_race_data c1 (fetch rnd) (fault rnd) cols seas rnd im of
             (c2, result) \<Rightarrow> (c2, count_result metrics result)))"
  by (simp add: process_rounds_def split: prod.splits)

lemma process_rounds_snapshot:
  "snapshot c = None \<Longrightarrow> snapshot (fst (process_rounds c fetch fault cols seas im rounds)) = None"
proof (induction rounds rule: rev_induct)
  case Nil
  then show ?case by (simp add: process_rounds_def)
next
  case (snoc rnd rounds)
  then show ?case
    using load_race_data_snapshot[of "fst (process_rounds c fetch fault cols seas im rounds)"]
    by (simp add: process_rounds_snoc split: prod.splits) (metis fst_conv)
qed

text \<open>
  C2. If the table already holds a row for (season, round), loading that race writes
  nothing and reports Skipped, in both scripts. Hence a load that did not fail, run
  again on the same fetched session, is Skipped and leaves the connection as the first
  run left it. The fetch is taken to have returned a session.
\<close>

theorem idempotent_load:
  "(0 < count_rows (table c) seas rnd \<longrightarrow>
      fst (load_race_data c (Inr sess) fault cols seas rnd im) = c \<and>
      status (snd (load_race_data c (Inr sess) fault cols seas rnd im)) = Skipped \<and>
      fst (load_race_data_2025 c (Inr sess) fault cols seas rnd) = c \<and>
      status (snd (load_race_data_2025 c (Inr sess) fault cols seas rnd)) = Skipped) \<and>
   (snapshot c = None \<and> status (snd (load_race_data c (Inr sess) fault cols seas rnd im)) \<noteq> Failed \<longrightarrow>
      fst (load_race_data (fst (load_race_data c (Inr sess) fault cols seas rnd im))
             (Inr sess) fault' cols seas rnd im)
        = fst (load_race_data c (Inr sess) fault cols seas rnd im) \<and>
      status (snd (load_race_data (fst (load_race_data c (Inr sess) fault cols seas rnd im))
             (Inr sess) fault' cols seas rnd im)) = Skipped) \<and>
   (snapshot c = None \<and> status (snd (load_race_data_2025 c (Inr sess) fault cols seas rnd)) \<noteq> Failed \<longrightarrow>
      fst (load_race_data_2025 (fst (load_race_data_2025 c (Inr sess) fault cols seas rnd))
             (Inr sess) fault' cols seas rnd)
        = fst (load_race_data_2025 c (Inr sess) fault cols seas rnd) \<and>
      status (snd (load_race_data_2025 (fst (load_race_data_2025 c (Inr sess) fault cols seas rnd))
             (Inr sess) fault' cols seas rnd)) = Skipped)"
proof (intro conjI impI)
  assume "0 < count_rows (table c) seas rnd"
  then show "fst (load_race_data c (Inr sess) fault cols seas rnd im) = c"
    "status (snd (load_race_data c (Inr sess) fault cols seas rnd im)) = Skipped"
    "fst (load_race_data_2025 c (Inr sess) fault cols seas rnd) = c"
    "status (snd (load_race_data_2025 c (Inr sess) fault cols seas rnd)) = Skipped"
    by (simp_all add: load_race_data_skips load_race_data_2025_skips)
next
  assume "snapshot c = None \<and> status (snd (load_race_data c (Inr sess) fault cols seas rnd im)) \<noteq> Failed"
  then have "0 < count_rows (table (fst (load_race_data c (Inr sess) fault cols seas rnd im))) seas rnd"
    using load_race_data_loaded_after by blast
  then show "fst (load_race_data (fst (load_race_data c (Inr sess) fault cols seas rnd im))
             (Inr sess) fault' cols seas rnd im)
        = fst (load_race_data c (Inr sess) fault cols seas rnd im)"
    "status (snd (load_race_data (fst (load_race_data c (Inr sess) fault cols seas rnd im))
             (Inr sess) fault' cols seas rnd im)) = Skipped"
    by (simp_all add: load_race_data_skips)
next
  assume "snapshot c = None \<and> status (snd (load_race_data_2025 c (Inr sess) fault cols seas rnd)) \<noteq> Failed"
  then have "0 < count_rows (table (fst (load_race_data_2025 c (Inr sess) fault cols seas rnd))) seas rnd"
    using load_race_data_2025_loaded_after by blast
  then show "fst (load_race_data_2025 (fst (load_race_data_2025 c (Inr sess) fault cols seas rnd))
             (Inr sess) fault' cols seas rnd)
        = fst (load_race_data_2025 c (Inr sess) fault cols seas rnd)"
    "status (snd (load_race_data_2025 (fst (load_race_data_2025 c (Inr sess) fault cols seas rnd))
             (Inr sess) fault' cols seas rnd)) = Skipped"
    by (simp_all add: load_race_data_2025_skips)
qed

theorem idempotent_load_witness:
  "0 < count_rows (table loaded_conn) 2024 1 \<and>
   fst (load_race_data loaded_conn (Inr scenario_session) None no_columns 2024 1 Map.empty) = loaded_conn \<and>
   status (snd (load_race_data loaded_conn (Inr scenario_session) None no_columns 2024 1 Map.empty)) = Skipped \<and>
   snapshot empty_conn = None \<and>
   status (snd (load_race_data empty_conn (Inr scenario_session) None no_columns 2024 1 Map.empty)) = Success \<and>
   status (snd (load_race_data
                  (fst (load_race_data empty_conn (Inr scenario_session) None no_columns 2024 1 Map.empty))
                  (Inr scenario_session) None no_columns 2024 1 Map.empty)) = Skipped \<and>
   status (snd (load_race_data_2025 empty_conn (Inr scenario_session) None no_columns 2024 1)) = Success \<and>
   status (snd (load_race_data_2025
                  (fst (load_race_data_2025 empty_conn (Inr scenario_session) None no_columns 2024 1))
                  (Inr scenario_session) None no_columns 2024 1)) = Skipped"
proof -
  have a: "0 < count_rows (table loaded_conn) 2024 1"
    by (simp add: loaded_conn_def count_rows_def stored_row_def)
  have b: "snapshot empty_conn = None" by (simp add: empty_conn_def)
  have c: "status (snd (load_race_data empty_conn (Inr scenario_session) None no_columns 2024 1 Map.empty)) = Success"
    by code_simp
  have d: "status (snd (load_race_data_2025 empty_conn (Inr scenario_session) None no_columns 2024 1)) = Success"
    by code_simp
  note t1 = idempotent_load[of loaded_conn 2024 1 scenario_session None no_columns Map.empty None]
  note t2 = idempotent_load[of empty_conn 2024 1 scenario_session None no_columns Map.empty None]
  from t1[THEN conjunct1, THEN mp, OF a]
  have e: "fst (load_race_data loaded_conn (Inr scenario_session) None no_columns 2024 1 Map.empty) = loaded_conn"
    "status (snd (load_race_data loaded_conn (Inr scenario_session) None no_columns 2024 1 Map.empty)) = Skipped"
    by simp_all
  have c': "status (snd (load_race_data empty_conn (Inr scenario_session) None no_columns 2024 1 Map.empty)) \<noteq> Failed"
    unfolding c by simp
  have d': "status (snd (load_race_data_2025 empty_conn (Inr scenario_session) None no_columns 2024 1)) \<noteq> Failed"
    unfolding d by simp
  from t2[THEN conjunct2, THEN conjunct1, THEN mp, OF conjI[OF b c']]
  have f: "status (snd (load_race_data
                  (fst (load_race_data empty_conn (Inr scenario_session) None no_columns 2024 1 Map.empty))
                  (Inr scenario_session) None no_columns 2024 1 Map.empty)) = Skipped"
    by simp
  from t2[THEN conjunct2, THEN conjunct2, THEN mp, OF conjI[OF b d']]
  have g: "status (snd (load_race_data_2025
                  (fst (load_race_data_2025 empty_conn (Inr scenario_session) None no_columns 2024 1))
                  (Inr scenario_session) None no_columns 2024 1)) = Skipped"
    by simp
  show ?thesis by (intro conjI a b c d e f g)
qed

text \<open>
  C3. The multi-season transformer returns its batch of records. If the database raises
  at any row of the batch of either script, the race not being loaded before, the load
  ends Failed with no rows inserted, the connection is exactly as before the
  load, and no row of that (season, round) is stored. More generally a Failed load
  leaves the connection, and so the rows of every race committed before, unchanged; in
  the loop over the rounds a failed round leaves the table as the rounds before left it.
\<close>

theorem transaction_atomicity:
  "(\<exists>recs log.
      transform_lap_data cols (laps sess) sess seas rnd
        (remove_quote (replace_space (py_lower (EventName sess)))) im = Inr (recs, log) \<and>
      (snapshot c = None \<and> count_rows (table c) seas rnd = 0 \<and> laps sess \<noteq> [] \<and>
       k < length recs \<longrightarrow>
         fst (load_race_data c (Inr sess) (Some k) cols seas rnd im) = c \<and>
         status (snd (load_race_data c (Inr sess) (Some k) cols seas rnd im)) = Failed \<and>
         laps_inserted (snd (load_race_data c (Inr sess) (Some k) cols seas rnd im)) = 0 \<and>
         count_rows (table (fst (load_race_data c (Inr sess) (Some k) cols seas rnd im))) seas rnd = 0)) \<and>
   (snapshot c = None \<and> count_rows (table c) seas rnd = 0 \<and> laps sess \<noteq> [] \<and>
    k < length (fst (transform_lap_data_2025 cols (laps sess) sess seas rnd
                       (replace_space (py_lower (EventName sess))))) \<longrightarrow>
      fst (load_race_data_2025 c (Inr sess) (Some k) cols seas rnd) = c \<and>
      status (snd (load_race_data_2025 c (Inr sess) (Some k) cols seas rnd)) = Failed \<and>
      laps_inserted (snd (load_race_data_2025 c (Inr sess) (Some k) cols seas rnd)) = 0 \<and>
      count_rows (table (fst (load_race_data_2025 c (Inr sess) (Some k) cols seas rnd))) seas rnd = 0) \<and>
   (snapshot c = None \<and> status (snd (load_race_data c fetched fault cols seas rnd im)) = Failed \<longrightarrow>
      fst (load_race_data c fetched fault cols seas rnd im) = c) \<and>
   (snapshot c = None \<and> status (snd (load_race_data_2025 c fetched fault cols seas rnd)) = Failed \<longrightarrow>
      fst (load_race_data_2025 c fetched fault cols seas rnd) = c) \<and>
   (snapshot c = None \<and>
    status (snd (load_race_data (fst (process_rounds c fetch faults cols seas im rounds))
                   (fetch rnd) (faults rnd) cols seas rnd im)) = Failed \<longrightarrow>
      fst (process_rounds c fetch faults cols seas im (rounds @ [rnd]))
        = fst (process_rounds c fetch faults cols seas im rounds))"
proof -
  let ?out = "transform_lap_data cols (laps sess) sess seas rnd
                (remove_quote (replace_space (py_lower (EventName sess)))) im"
  let ?recs = "fst (projr ?out)"
  have ret: "?out = Inr (?recs, snd (projr ?out))"
    by (simp add: transform_lap_data_eq)
  have multi: "fst (load_race_data c (Inr sess) (Some k) cols seas rnd im) = c \<and>
         status (snd (load_race_data c (Inr sess) (Some k) cols seas rnd im)) = Failed \<and>
         laps_inserted (snd (load_race_data c (Inr sess) (Some k) cols seas rnd im)) = 0 \<and>
         count_rows (table (fst (load_race_data c (Inr sess) (Some k) cols seas rnd im))) seas rnd = 0"
    if h: "snapshot c = None" "count_rows (table c) seas rnd = 0" "laps sess \<noteq> []" "k < length ?recs"
  proof -
    from execute_values_raises[OF h(4), of "table c"] obtain t where
      t: "execute_values (Some k) ?recs (table c) = Inl t" by blast
    from h(4) have ne: "?recs \<noteq> []" by auto
    have eq: "load_race_data c (Inr sess) (Some k) cols seas rnd im =
        (c, \<lparr>status = Failed, laps_inserted = 0,
             result_track_id = remove_quote (replace_space (py_lower (EventName sess))),
             error = Some ''insert failed''\<rparr>)"
      unfolding load_race_data_Inr using h(1,2,3) ne t by (simp add: sql_rollback_begin)
    show ?thesis unfolding eq using h(2) by simp
  qed
  have c1: "\<exists>recs log. ?out = Inr (recs, log) \<and>
      (snapshot c = None \<and> count_rows (table c) seas rnd = 0 \<and> laps sess \<noteq> [] \<and>
       k < length recs \<longrightarrow>
         fst (load_race_data c (Inr sess) (Some k) cols seas rnd im) = c \<and>
         status (snd (load_race_data c (Inr sess) (Some k) cols seas rnd im)) = Failed \<and>
         laps_inserted (snd (load_race_data c (Inr sess) (Some k) cols seas rnd im)) = 0 \<and>
         count_rows (table (fst (load_race_data c (Inr sess) (Some k) cols seas rnd im))) seas rnd = 0)"
    apply (rule exI[where x = ?recs])
    apply (rule exI[where x = "snd (projr ?out)"])
    using ret multi by blast
  have c2: "snapshot c = None \<and> count_rows (table c) seas rnd = 0 \<and> laps sess \<noteq> [] \<and>
    k < length (fst (transform_lap_data_2025 cols (laps sess) sess seas rnd
                       (replace_space (py_lower (EventName sess))))) \<longrightarrow>
      fst (load_race_data_2025 c (Inr sess) (Some k) cols seas rnd) = c \<and>
      status (snd (load_race_data_2025 c (Inr sess) (Some k) cols seas rnd)) = Failed \<and>
      laps_inserted (snd (load_race_data_2025 c (Inr sess) (Some k) cols seas rnd)) = 0 \<and>
      count_rows (table (fst (load_race_data_2025 c (Inr sess) (Some k) cols seas rnd))) seas rnd = 0"
  proof (intro impI, elim conjE)
    let ?recs = "fst (transform_lap_data_2025 cols (laps sess) sess seas rnd
                         (replace_space (py_lower (EventName sess))))"
    assume h: "snapshot c = None" "count_rows (table c) seas rnd = 0" "laps sess \<noteq> []" "k < length ?recs"
    from execute_values_raises[OF h(4), of "table c"] obtain t where
      t: "execute_values (Some k) ?recs (table c) = Inl t" by blast
    from h(4) have ne: "?recs \<noteq> []" by auto
    have eq: "load_race_data_2025 c (Inr sess) (Some k) cols seas rnd =
        (c, \<lparr>status = Failed, laps_inserted = 0,
             result_track_id = replace_space (py_lower (EventName sess)),
             error = Some ''insert failed''\<rparr>)"
      unfolding load_race_data_2025_Inr using h(1,2,3) ne t by (simp add: sql_rollback_begin)
    show "fst (load_race_data_2025 c (Inr sess) (Some k) cols seas rnd) = c \<and>
      status (snd (load_race_data_2025 c (Inr sess) (Some k) cols seas rnd)) = Failed \<and>
      laps_inserted (snd (load_race_data_2025 c (Inr sess) (Some k) cols seas rnd)) = 0 \<and>
      count_rows (table (fst (load_race_data_2025 c (Inr sess) (Some k) cols seas rnd))) seas rnd = 0"
      unfolding eq using h(2) by simp
  qed
  have c3: "snapshot c = None \<and> status (snd (load_race_data c fetched fault cols seas rnd im)) = Failed \<longrightarrow>
      fst (load_race_data c fetched fault cols seas rnd im) = c"
    using load_race_data_failed_unchanged by blast
  have c4: "snapshot c = None \<and> status (snd (load_race_data_2025 c fetched fault cols seas rnd)) = Failed \<longrightarrow>
      fst (load_race_data_2025 c fetched fault cols seas rnd) = c"
    using load_race_data_2025_failed_unchanged by blast
  have c5: "snapshot c = None \<and>
    status (snd (load_race_data (fst (process_rounds c fetch faults cols seas im rounds))
                   (fetch rnd) (faults rnd) cols seas rnd im)) = Failed \<longrightarrow>
      fst (process_rounds c fetch faults cols seas im (rounds @ [rnd]))
        = fst (process_rounds c fetch faults cols seas im rounds)"
  proof (intro impI, elim conjE)
    let ?c1 = "fst (process_rounds c fetch faults cols seas im rounds)"
    assume h: "snapshot c = None"
      "status (snd (load_race_data ?c1 (fetch rnd) (faults rnd) cols seas rnd im)) = Failed"
    from h(1) have "snapshot ?c1 = None" by (rule process_rounds_snapshot)
    from load_race_data_failed_unchanged[OF this h(2)]
    have same: "fst (load_race_data ?c1 (fetch rnd) (faults rnd) cols seas rnd im) = ?c1" .
    have "fst (process_rounds c fetch faults cols seas im (rounds @ [rnd]))
            = fst (load_race_data ?c1 (fetch rnd) (faults rnd) cols seas rnd im)"
      by (simp add: process_rounds_snoc split: prod.splits)
    with same show "fst (process_rounds c fetch faults cols seas im (rounds @ [rnd])) = ?c1"
      by simp
  qed
  show ?thesis by (intro conjI c1 c2 c3 c4 c5)
qed

theorem transaction_atomicity_witness:
  "snapshot loaded_conn = None \<and> count_rows (table loaded_conn) 2024 2 = 0 \<and>
   laps scenario_session \<noteq> [] \<and>
   (\<exists>recs log.
      transform_lap_data no_columns (laps scenario_session) scenario_session 2024 2
        (remove_quote (replace_space (py_lower (EventName scenario_session)))) Map.empty
        = Inr (recs, log) \<and> 5 < length recs) \<and>
   fst (load_race_data loaded_conn (Inr scenario_session) (Some 5) no_columns 2024 2 Map.empty)
     = \<lparr>table = [stored_row], snapshot = None\<rparr> \<and>
   status (snd (load_race_data loaded_conn (Inr scenario_session) (Some 5) no_columns 2024 2 Map.empty)) = Failed \<and>
   count_rows (table (fst (load_race_data loaded_conn (Inr scenario_session) (Some 5) no_columns 2024 2 Map.empty))) 2024 2 = 0"
proof -
  let ?out = "transform_lap_data no_columns (laps scenario_session) scenario_session 2024 2
        (remove_quote (replace_space (py_lower (EventName scenario_session)))) Map.empty"
  have a: "snapshot loaded_conn = None" by (simp add: loaded_conn_def)
  have b: "count_rows (table loaded_conn) 2024 2 = 0"
    by (simp add: loaded_conn_def count_rows_def stored_row_def)
  have c: "laps scenario_session \<noteq> []" by (simp add: scenario_session_def scenario_laps_def)
  have d: "5 < length (case ?out of Inl e \<Rightarrow> [] | Inr returned \<Rightarrow> fst returned)"
    by code_simp
  from transaction_atomicity[of no_columns scenario_session 2024 2 Map.empty loaded_conn 5,
      THEN conjunct1]
  obtain recs log where r: "?out = Inr (recs, log)"
    and i: "snapshot loaded_conn = None \<and> count_rows (table loaded_conn) 2024 2 = 0 \<and>
            laps scenario_session \<noteq> [] \<and> 5 < length recs \<longrightarrow>
         fst (load_race_data loaded_conn (Inr scenario_session) (Some 5) no_columns 2024 2 Map.empty) = loaded_conn \<and>
         status (snd (load_race_data loaded_conn (Inr scenario_session) (Some 5) no_columns 2024 2 Map.empty)) = Failed \<and>
         laps_inserted (snd (load_race_data loaded_conn (Inr scenario_session) (Some 5) no_columns 2024 2 Map.empty)) = 0 \<and>
         count_rows (table (fst (load_race_data loaded_conn (Inr scenario_session) (Some 5) no_columns 2024 2 Map.empty))) 2024 2 = 0"
    by blast
  from d have d': "5 < length recs" unfolding r by simp
  note t = i[THEN mp, OF conjI[OF a conjI[OF b conjI[OF c d']]]]
  from r d' have x: "\<exists>recs log. ?out = Inr (recs, log) \<and> 5 < length recs" by blast
  from t have e: "fst (load_race_data loaded_conn (Inr scenario_session) (Some 5) no_columns 2024 2 Map.empty)
     = \<lparr>table = [stored_row], snapshot = None\<rparr>"
    by (simp add: loaded_conn_def)
  note f = t[THEN conjunct2, THEN conjunct1]
  note g = t[THEN conjunct2, THEN conjunct2, THEN conjunct2]
  show ?thesis by (intro conjI a b c x e f g)
qed

section \<open>Properties of the audit fingerprint\<close>

lemma digit_val_digit_char: "d < 10 \<Longrightarrow> digit_val (digit_char d) = d"
  by (simp add: digit_val_def digit_char_def)

lemma nat_of_str_str_nat: "nat_of_str (str_nat n) = n"
proof (induction n rule: str_nat.induct)
  case (1 n)
  show ?case
  proof (cases "n < 10")
    case True
    then show ?thesis
      by (subst str_nat.simps) (simp add: nat_of_str_def digit_val_digit_char)
  next
    case False
    with 1 have "nat_of_str (str_nat (n div 10)) = n div 10" by simp
    with False show ?thesis
      by (subst str_nat.simps) (simp add: nat_of_str_def digit_val_digit_char)
  qed
qed

lemma str_nat_inj: "str_nat m = str_nat n \<Longrightarrow> m = n"
  by (metis nat_of_str_str_nat)

lemma str_nat_digits: "c \<in> set (str_nat n) \<Longrightarrow> 48 \<le> (of_char c :: nat) \<and> (of_char c :: nat) \<le> 57"
proof (induction n rule: str_nat.induct)
  case (1 n)
  show ?case
  proof (cases "n < 10")
    case True
    with 1(2) show ?thesis
      by (subst (asm) str_nat.simps) (auto simp: digit_char_def)
  next
    case False
    with 1 show ?thesis
      by (subst (asm) (2) str_nat.simps) (auto simp: digit_char_def)
  qed
qed

lemma str_nat_nonempty: "str_nat n \<noteq> []"
  by (subst str_nat.simps) simp

lemma colon_notin_str_nat: "CHR '':'' \<notin> set (str_nat n)"
  using str_nat_digits[of "CHR '':''" n] by auto

lemma minus_notin_str_nat: "CHR ''-'' \<notin> set (str_nat n)"
  using str_nat_digits[of "CHR ''-''" n] by auto

lemma colon_notin_str_int: "CHR '':'' \<notin> set (str_int i)"
  by (simp add: str_int_def colon_notin_str_nat)

lemma str_int_inj: "str_int i = str_int j \<Longrightarrow> i = j"
proof -
  assume eq: "str_int i = str_int j"
  have hd: "\<And>n. hd (str_nat n) \<noteq> CHR ''-''"
    using minus_notin_str_nat str_nat_nonempty by (metis hd_in_set)
  have ne: "\<And>n m. CHR ''-'' # str_nat n \<noteq> str_nat m"
    using hd by (metis list.sel(1))
  show ?thesis
  proof (cases "i < 0"; cases "j < 0")
    assume "i < 0" "j < 0"
    with eq have "nat (- i) = nat (- j)" by (simp add: str_int_def str_nat_inj)
    with \<open>i < 0\<close> \<open>j < 0\<close> show ?thesis by simp
  next
    assume "i < 0" "\<not> j < 0"
    with eq ne show ?thesis by (simp add: str_int_def)
  next
    assume "\<not> i < 0" "j < 0"
    with eq ne[of "nat (- j)" "nat i"] show ?thesis by (simp add: str_int_def)
  next
    assume "\<not> i < 0" "\<not> j < 0"
    with eq have "nat i = nat j" by (simp add: str_int_def str_nat_inj)
    with \<open>\<not> i < 0\<close> \<open>\<not> j < 0\<close> show ?thesis by simp
  qed
qed

lemma split_at_first:
  "a @ x # b = c @ x # d \<Longrightarrow> x \<notin> set a \<Longrightarrow> x \<notin> set c \<Longrightarrow> a = c \<and> b = d"
proof (induction a arbitrary: c)
  case Nil
  then show ?case by (cases c) auto
next
  case (Cons y a)
  then show ?case by (cases c) auto
qed

lemma execution_data_inj:
  "(execution_data seas rnd v = execution_data seas' rnd' v') = (seas = seas' \<and> rnd = rnd' \<and> v = v')"
proof
  assume eq: "execution_data seas rnd v = execution_data seas' rnd' v'"
  then have "str_int seas @ CHR '':'' # (str_int rnd @ CHR '':'' # v)
           = str_int seas' @ CHR '':'' # (str_int rnd' @ CHR '':'' # v')"
    by (simp add: execution_data_def)
  from split_at_first[OF this colon_notin_str_int colon_notin_str_int]
  have a: "str_int seas = str_int seas'" and r: "str_int rnd @ CHR '':'' # v = str_int rnd' @ CHR '':'' # v'"
    by simp_all
  from split_at_first[OF r colon_notin_str_int colon_notin_str_int]
  have b: "str_int rnd = str_int rnd'" and c: "v = v'" by simp_all
  from a b c show "seas = seas' \<and> rnd = rnd' \<and> v = v'" by (simp add: str_int_inj)
qed simp

text \<open>
  C9, as the scripts have it. The fingerprint of the lap scripts is the SHA-256 digest of
  \<^verbatim>\<open>{season}:{round-or-0}:{source-version}\<close>, with no subject kind in front; the run
  hashes the single round, or 0 for a whole season, and \<^verbatim>\<open>fastf1-\<close> followed by the
  library version. The hashed string determines the three arguments, so two runs have
  the same fingerprint exactly when the digest agrees on their two strings, which differ
  whenever an argument differs.
\<close>

theorem execution_fingerprint:
  "compute_execution_hash sha256 seas rnd v = sha256 (str_int seas @ '':'' @ str_int rnd @ '':'' @ v) \<and>
   run_execution_hash sha256 seas rounds version
     = compute_execution_hash sha256 seas (if length rounds = 1 then hd rounds else 0) (''fastf1-'' @ version) \<and>
   (execution_data seas rnd v = execution_data seas' rnd' v') = (seas = seas' \<and> rnd = rnd' \<and> v = v') \<and>
   (compute_execution_hash sha256 seas rnd v = compute_execution_hash sha256 seas' rnd' v')
     = (sha256 (execution_data seas rnd v) = sha256 (execution_data seas' rnd' v'))"
  by (simp add: execution_data_inj)
     (simp add: compute_execution_hash_def run_execution_hash_def execution_data_def)

text \<open>
  C9 as stated fails: the hashed string of a 2024 whole-season run has three fields, not
  the four of the specification's wording with a subject kind.
\<close>

theorem execution_fingerprint_counterexample:
  "execution_data 2024 0 ''fastf1-3.4.0'' = ''2024:0:fastf1-3.4.0'' \<and>
   execution_data 2024 0 ''fastf1-3.4.0'' \<noteq> spec_execution_data ''laps'' 2024 0 ''fastf1-3.4.0''"
  by code_simp

section \<open>Properties of the clean-air classifiers\<close>

lemma set_clean_air_mark: "set_clean_air i v df = map (mark v {i}) df"
  by (simp add: set_clean_air_def mark_def)

lemma mark_empty: "map (mark v {}) df = df"
  by (rule map_idI) (simp add: mark_def)

lemma mark_mark: "mark v S (mark v T r) = mark v (S \<union> T) r"
  by (simp add: mark_def)

lemma map_mark_mark: "map (mark v S) (map (mark v T) df) = map (mark v (S \<union> T)) df"
  by (simp add: mark_mark comp_def)

lemma idx_mark [simp]: "idx (mark v S r) = idx r"
  by (simp add: mark_def)

lemma raw_mark [simp]: "raw (mark v S r) = raw r"
  by (simp add: mark_def)

lemma classify_lap_mark:
  "classify_lap cols th ahead rows df = map (mark True (clean_labels cols th ahead rows)) df"
proof (induction rows arbitrary: ahead df)
  case Nil
  then show ?case by (simp add: mark_empty)
next
  case (Cons x rows)
  obtain row c where x: "x = (row, c)" by (cases x)
  show ?case
    unfolding x classify_lap.simps clean_labels.simps Cons.IH set_clean_air_mark
    by (simp add: mark_mark excluded_def split: option.splits)
qed

lemma foldl_mark:
  assumes "\<And>df x. step df x = map (mark v (S x)) df"
  shows "foldl step df xs = map (mark v (\<Union>x \<in> set xs. S x)) df"
proof (induction xs arbitrary: df)
  case Nil
  then show ?case by (simp add: mark_empty)
next
  case (Cons x xs)
  have "foldl step df (x # xs) = foldl step (step df x) xs" by simp
  also have "\<dots> = map (mark v (\<Union>y \<in> set xs. S y)) (step df x)" by (rule Cons.IH)
  also have "\<dots> = map (mark v ((\<Union>y \<in> set xs. S y) \<union> S x)) df"
    by (simp only: assms map_mark_mark)
  also have "(\<Union>y \<in> set xs. S y) \<union> S x = (\<Union>y \<in> set (x # xs). S y)" by auto
  finally show ?case .
qed

lemma clean_labels_iff:
  "i \<in> clean_labels cols th ahead rows \<longleftrightarrow>
     (\<exists>pre row c post. rows = pre @ (row, c) # post \<and> idx row = i \<and> \<not> excluded row \<and>
        (case (if pre = [] then ahead else Some (snd (last pre))) of
           None \<Rightarrow> True | Some a \<Rightarrow> float_sub cols c a \<ge> th))"
proof (induction rows arbitrary: ahead)
  case Nil
  then show ?case by simp
next
  case (Cons x rows)
  obtain row0 c0 where x: "x = (row0, c0)" by (cases x)
  show ?case
  proof
    assume "i \<in> clean_labels cols th ahead (x # rows)"
    then consider (here) "idx row0 = i" "\<not> excluded row0"
        "(case ahead of None \<Rightarrow> True | Some a \<Rightarrow> float_sub cols c0 a \<ge> th)"
      | (later) "i \<in> clean_labels cols th (Some c0) rows"
      unfolding x by (auto split: if_splits)
    then show "\<exists>pre row c post. x # rows = pre @ (row, c) # post \<and> idx row = i \<and> \<not> excluded row \<and>
        (case (if pre = [] then ahead else Some (snd (last pre))) of
           None \<Rightarrow> True | Some a \<Rightarrow> float_sub cols c a \<ge> th)"
    proof cases
      case here
      then show ?thesis unfolding x by (intro exI[of _ "[]"] exI[of _ row0] exI[of _ c0] exI[of _ rows]) simp
    next
      case later
      then obtain pre row c post where p: "rows = pre @ (row, c) # post" "idx row = i" "\<not> excluded row"
        "(case (if pre = [] then Some c0 else Some (snd (last pre))) of
           None \<Rightarrow> True | Some a \<Rightarrow> float_sub cols c a \<ge> th)"
        using Cons.IH[of "Some c0"] by blast
      show ?thesis
        by (intro exI[of _ "x # pre"] exI[of _ row] exI[of _ c] exI[of _ post])
           (use p x in \<open>auto split: if_splits\<close>)
    qed
  next
    assume "\<exists>pre row c post. x # rows = pre @ (row, c) # post \<and> idx row = i \<and> \<not> excluded row \<and>
        (case (if pre = [] then ahead else Some (snd (last pre))) of
           None \<Rightarrow> True | Some a \<Rightarrow> float_sub cols c a \<ge> th)"
    then obtain pre row c post where p: "x # rows = pre @ (row, c) # post" "idx row = i" "\<not> excluded row"
        "(case (if pre = [] then ahead else Some (snd (last pre))) of
           None \<Rightarrow> True | Some a \<Rightarrow> float_sub cols c a \<ge> th)" by blast
    show "i \<in> clean_labels cols th ahead (x # rows)"
    proof (cases pre)
      case Nil
      with p show ?thesis unfolding x by auto
    next
      case (Cons y pre')
      with p have r: "rows = pre' @ (row, c) # post" and y: "y = x" by auto
      have "(case (if pre' = [] then Some c0 else Some (snd (last pre'))) of
           None \<Rightarrow> True | Some a \<Rightarrow> float_sub cols c a \<ge> th)"
        using p(4) Cons y x by (auto split: if_splits)
      with r p(2,3) have "i \<in> clean_labels cols th (Some c0) rows"
        using Cons.IH[of "Some c0"] by blast
      then show ?thesis unfolding x by simp
    qed
  qed
qed

lemma find_map_mark:
  "find (\<lambda>s. idx s = i) (map (mark v L) xs) = map_option (mark v L) (find (\<lambda>s. idx s = i) xs)"
  by (induction xs) simp_all

lemma flag_of_mark:
  assumes "\<forall>s \<in> set xs. \<not> col_clean_air_flag s" and "i \<in> idx ` set xs"
  shows "flag_of (map (mark True L) xs) i = (i \<in> L)"
proof -
  from assms(2) obtain s where s: "find (\<lambda>s. idx s = i) xs = Some s"
    by (cases "find (\<lambda>s. idx s = i) xs") (auto simp: find_None_iff)
  then have "s \<in> set xs" "idx s = i" by (auto simp: find_Some_iff in_set_conv_nth)
  with assms(1) s show ?thesis
    by (simp add: flag_of_def find_map_mark mark_def)
qed

lemma set_sorted_by_lap: "set (sorted_by_lap cols df) = set df"
  by (simp add: sorted_by_lap_def)

lemma detect_clean_air_2025_flags:
  "detect_clean_air_2025 cols th laps_df =
     map (\<lambda>r. r\<lparr>col_clean_air_flag :=
                  idx r \<in> labels_2025 cols th (map (\<lambda>r. r\<lparr>col_clean_air_flag := False\<rparr>) laps_df)\<rparr>)
       (map (\<lambda>r. r\<lparr>col_clean_air_flag := False\<rparr>) laps_df)"
proof -
  let ?df = "map (\<lambda>r. r\<lparr>col_clean_air_flag := False\<rparr>) laps_df"
  let ?sorted = "sorted_by_lap cols ?df"
  let ?rows = "with_cumulative_time cols ?sorted"
  let ?L = "labels_2025 cols th ?df"
  have fin: "foldl (\<lambda>sl lap_num. classify_lap cols th None (lap_order ?rows lap_num) sl)
                  ?sorted (unique (map LapNumber ?sorted)) = map (mark True ?L) ?sorted"
    unfolding labels_2025_def by (rule foldl_mark) (rule classify_lap_mark)
  have nf: "\<forall>s \<in> set ?sorted. \<not> col_clean_air_flag s"
    unfolding set_sorted_by_lap by simp
  have "flag_of (map (mark True ?L) ?sorted) (idx r) = (idx r \<in> ?L)" if "r \<in> set ?df" for r
    by (rule flag_of_mark[OF nf]) (use that in \<open>simp add: set_sorted_by_lap del: set_map\<close>)
  then show ?thesis
    unfolding detect_clean_air_2025_def Let_def fin by (intro map_cong) simp_all
qed

lemma lap_order_set:
  "(row, c) \<in> set (lap_order (with_cumulative_time cols (sorted_by_lap cols df)) n)
     \<Longrightarrow> row \<in> set df \<and> LapNumber row = n"
  by (auto simp: lap_order_def with_cumulative_time_def set_sorted_by_lap dest: set_zip_leftD)

lemma distinct_idx_eq:
  "distinct (map idx df) \<Longrightarrow> a \<in> set df \<Longrightarrow> b \<in> set df \<Longrightarrow> idx a = idx b \<Longrightarrow> a = b"
  by (meson distinct_map inj_onD)

lemma detect_clean_air_2025_clean:
  assumes dist: "distinct (map idx laps_df)"
    and mem: "r \<in> set (detect_clean_air_2025 cols th laps_df)"
    and flag: "col_clean_air_flag r"
  shows "\<not> is_pit_row r \<and> \<not> is_sc_row r \<and> \<not> is_inaccurate_row r \<and>
         (\<exists>pre c post.
            lap_order (with_cumulative_time cols
                         (sorted_by_lap cols (map (\<lambda>r. r\<lparr>col_clean_air_flag := False\<rparr>) laps_df)))
                      (LapNumber r)
              = pre @ (r\<lparr>col_clean_air_flag := False\<rparr>, c) # post \<and>
            (pre = [] \<or> th \<le> float_sub cols c (snd (last pre))))"
proof -
  let ?df = "map (\<lambda>r. r\<lparr>col_clean_air_flag := False\<rparr>) laps_df"
  let ?rows = "with_cumulative_time cols (sorted_by_lap cols ?df)"
  have d: "distinct (map idx ?df)" using dist by (simp add: comp_def)
  from mem have "r \<in> (\<lambda>r. r\<lparr>col_clean_air_flag := idx r \<in> labels_2025 cols th ?df\<rparr>) ` set ?df"
    unfolding detect_clean_air_2025_flags by (simp only: set_map)
  then obtain r0 where r0: "r0 \<in> set ?df"
    "r = r0\<lparr>col_clean_air_flag := idx r0 \<in> labels_2025 cols th ?df\<rparr>"
    by (rule imageE)
  with flag have inL: "idx r0 \<in> labels_2025 cols th ?df" by simp
  from r0(1) have f0: "\<not> col_clean_air_flag r0" by auto
  with r0(2) have unflag: "r\<lparr>col_clean_air_flag := False\<rparr> = r0" by simp
  from inL obtain n where "idx r0 \<in> clean_labels cols th None (lap_order ?rows n)"
    unfolding labels_2025_def by blast
  then obtain pre row c post where p: "lap_order ?rows n = pre @ (row, c) # post" "idx row = idx r0"
    "\<not> excluded row"
    "(case (if pre = [] then None else Some (snd (last pre))) of None \<Rightarrow> True | Some a \<Rightarrow> float_sub cols c a \<ge> th)"
    unfolding clean_labels_iff by blast
  from p(1) have "(row, c) \<in> set (lap_order ?rows n)" by simp
  then have "row \<in> set ?df" "LapNumber row = n" using lap_order_set by blast+
  with distinct_idx_eq[OF d _ r0(1) p(2)] have row: "row = r0" "n = LapNumber r0" by simp_all
  have ex: "\<not> is_pit_row r \<and> \<not> is_sc_row r \<and> \<not> is_inaccurate_row r"
    using p(3) unfolding row r0(2)
    by (simp add: excluded_def is_pit_row_def is_sc_row_def is_inaccurate_row_def)
  have ln: "LapNumber r = n" unfolding row r0(2) by simp
  have cond: "pre = [] \<or> th \<le> float_sub cols c (snd (last pre))" using p(4) by (auto split: if_splits)
  from p(1) cond show ?thesis unfolding ln unflag row(1) using ex by blast
qed

lemma mark_dirty_gaps_mark:
  "mark_dirty_gaps cols th vs df = map (mark False (dirty_labels cols th vs)) df"
proof (induction cols th vs df rule: mark_dirty_gaps.induct)
  case (1 cols threshold a b rest df)
  then show ?case
    by (simp add: set_clean_air_mark mark_mark)
qed (simp_all add: mark_empty)

lemma dirty_labels_subset: "dirty_labels cols th vs \<subseteq> fst ` set vs"
  by (induction cols th vs rule: dirty_labels.induct) auto

lemma groupby_cumsum_None:
  "(row, c) \<in> set (zip df (groupby_cumsum cols acc df))
     \<Longrightarrow> (c = None) = (LapTime row = None \<or> DriverNumber row = None)"
  by (induction df arbitrary: acc) (auto split: option.splits)

lemma mark_cumulative_gaps_flags:
  "mark_cumulative_gaps cols th df = map (mark False (labels_cumulative cols th df)) df"
  unfolding mark_cumulative_gaps_def Let_def labels_cumulative_def
  by (rule foldl_mark) (simp add: mark_dirty_gaps_mark mark_empty)

lemma valid_cumtimes_label:
  assumes "i \<in> fst ` set (valid_cumtimes (with_cumsum cols df) n)"
  shows "\<exists>row \<in> set df. idx row = i \<and> LapNumber row = n \<and> LapTime row \<noteq> None \<and> DriverNumber row \<noteq> None"
proof -
  from assms obtain row c where rc: "(row, c) \<in> set (with_cumsum cols df)" "LapNumber row = n" "c \<noteq> None"
    "idx row = i"
    by (auto simp: valid_cumtimes_def)
  from rc(1) have "row \<in> set df" by (auto simp: with_cumsum_def dest: set_zip_leftD)
  moreover from rc(1,3) have "LapTime row \<noteq> None \<and> DriverNumber row \<noteq> None"
    using groupby_cumsum_None[of row c df cols "\<lambda>_. []"] by (simp add: with_cumsum_def)
  ultimately show ?thesis using rc(2,4) by blast
qed

lemma distinct_idx_detect_stints:
  "distinct (map idx df) \<Longrightarrow> distinct (map idx (detect_stints df))"
proof -
  assume d: "distinct (map idx df)"
  have "map idx (detect_stints df) = map idx (map raw (detect_stints df))" by (simp add: comp_def)
  also have "\<dots> = map idx (sort_key driver_lap_key df)"
    unfolding raw_detect_stints by (simp add: comp_def)
  finally show ?thesis using d by (simp add: distinct_map inj_on_def)
qed

text \<open>
  In the 2025 script no record of a pit lap is flagged clean air.
\<close>

lemma clean_air_exclusivity_2025:
  assumes "distinct (map idx laps_df)"
    and "rec \<in> set (fst (transform_lap_data_2025 cols laps_df sess seas rnd tid))"
    and "is_pit_lap rec"
  shows "\<not> clean_air_flag rec"
proof
  assume c: "clean_air_flag rec"
  let ?ann = "detect_clean_air_2025 cols CLEAN_AIR_GAP_THRESHOLD_2025 (detect_stints (filter has_critical laps_df))"
  from assms(2) obtain row where row: "row \<in> set ?ann"
    "rec = build_record_2025 seas rnd tid (resolve_driver_2025 sess) row (the (LapTime row))"
    unfolding transform_lap_data_2025_eq by auto
  from assms(1) have "distinct (map idx (filter has_critical laps_df))"
    by (rule distinct_map_filter)
  then have d: "distinct (map idx (detect_stints (filter has_critical laps_df)))"
    by (rule distinct_idx_detect_stints)
  from c row(2) have "col_clean_air_flag row" by (simp add: build_record_2025_def)
  from detect_clean_air_2025_clean[OF d row(1) this] have "\<not> is_pit_row row" by blast
  with assms(3) row(2) show False by (simp add: build_record_2025_def is_pit_row_def)
qed

text \<open>
  C1 in the multi-season script, on the end-to-end scenario of the specification: the
  transformer returns, and the record of driver 1's lap 2, the lap with the pit-out
  marker, is a pit lap and is flagged clean air. The classifier of that script has no
  pit check.
\<close>

theorem clean_air_exclusivity_multi_season:
  "\<exists>recs log.
     transform_lap_data no_columns scenario_laps scenario_session 2024 1 ''test_grand_prix'' Map.empty
       = Inr (recs, log) \<and>
     map (\<lambda>rec. (driver_id rec, lap_number rec, is_pit_lap rec, clean_air_flag rec)) recs ! 1
       = (''ann_alpha'', 2, True, True)"
proof -
  let ?out = "transform_lap_data no_columns scenario_laps scenario_session 2024 1 ''test_grand_prix'' Map.empty"
  have r: "?out = Inr (fst (projr ?out), snd (projr ?out))"
    by (simp add: transform_lap_data_eq)
  have v: "map (\<lambda>rec. (driver_id rec, lap_number rec, is_pit_lap rec, clean_air_flag rec))
             (fst (projr ?out)) ! 1 = (''ann_alpha'', 2, True, True)"
    by code_simp
  from r v show ?thesis by blast
qed

lemma length_cum_time_loop: "length (cum_time_loop cols acc xs) = length xs"
  by (induction xs arbitrary: acc) (simp_all add: Let_def)

lemma length_groupby_cumsum: "length (groupby_cumsum cols seen xs) = length xs"
  by (induction xs arbitrary: seen) (simp_all split: option.splits)

lemma zip_left_mem: "length ys = length xs \<Longrightarrow> x \<in> set xs \<Longrightarrow> \<exists>y. (x, y) \<in> set (zip xs ys)"
  by (force simp: set_zip in_set_conv_nth)

text \<open>
  Every row of the frame is in the cumulative-time order of its lap number (2025), and
  every row with a duration and a driver number has a cumulative time at its lap number
  (multi-season).
\<close>

lemma ranked_2025:
  assumes "r \<in> set df"
  shows "\<exists>c. (r, c) \<in> set (lap_order (with_cumulative_time cols (sorted_by_lap cols df)) (LapNumber r))"
proof -
  from assms have "r \<in> set (sorted_by_lap cols df)" by (simp add: set_sorted_by_lap)
  from zip_left_mem[OF length_cum_time_loop this]
  obtain c where "(r, c) \<in> set (with_cumulative_time cols (sorted_by_lap cols df))"
    unfolding with_cumulative_time_def by blast
  then have "(r, c) \<in> set (lap_order (with_cumulative_time cols (sorted_by_lap cols df)) (LapNumber r))"
    by (simp add: lap_order_def)
  then show ?thesis ..
qed

lemma ranked_cumulative:
  assumes "r \<in> set df" and "has_critical r"
  shows "idx r \<in> fst ` set (valid_cumtimes (with_cumsum cols df) (LapNumber r))"
proof -
  from zip_left_mem[OF length_groupby_cumsum assms(1)]
  obtain c where c: "(r, c) \<in> set (with_cumsum cols df)"
    unfolding with_cumsum_def by blast
  with assms(2) have "c \<noteq> None"
    using groupby_cumsum_None[of r c df cols "\<lambda>_. []"] by (simp add: with_cumsum_def has_critical_def)
  with c have "(idx r, the c) \<in> set (valid_cumtimes (with_cumsum cols df) (LapNumber r))"
    by (force simp: valid_cumtimes_def)
  then show ?thesis by force
qed

text \<open>
  The multi-season loop over one lap number marks dirty every label that stands behind
  another with a float64 difference below the threshold.
\<close>

lemma dirty_labels_adjacent:
  "pre \<noteq> [] \<Longrightarrow> float_sub cols c (snd (last pre)) < th
     \<Longrightarrow> i \<in> dirty_labels cols th (pre @ (i, c) # post)"
proof (induction pre)
  case Nil
  then show ?case by simp
next
  case (Cons a pre)
  show ?case
  proof (cases pre)
    case Nil
    with Cons.prems show ?thesis by simp
  next
    case tl: (Cons b pre')
    from Cons.prems tl have "float_sub cols c (snd (last pre)) < th" by simp
    with Cons.IH tl have "i \<in> dirty_labels cols th (pre @ (i, c) # post)" by simp
    then show ?thesis unfolding tl by simp
  qed
qed

lemma cumulative_clean:
  assumes mem: "r \<in> set (mark_cumulative_gaps cols th df)" and flag: "col_clean_air_flag r"
    and ord: "sort_key snd (valid_cumtimes (with_cumsum cols df) (LapNumber r)) = pre @ (idx r, c) # post"
    and ne: "pre \<noteq> []"
  shows "th \<le> float_sub cols c (snd (last pre))"
proof (rule ccontr)
  assume "\<not> th \<le> float_sub cols c (snd (last pre))"
  then have lt: "float_sub cols c (snd (last pre)) < th" by simp
  let ?L = "labels_cumulative cols th df"
  let ?v = "valid_cumtimes (with_cumsum cols df) (LapNumber r)"
  from mem have "r \<in> mark False ?L ` set df"
    unfolding mark_cumulative_gaps_flags by (simp only: set_map)
  then obtain r0 where r0: "r0 \<in> set df" "r = mark False ?L r0" by (rule imageE)
  have "length (sort_key snd ?v) = length ?v" by simp
  moreover have "2 \<le> length (pre @ (idx r, c) # post)" using ne by (cases pre) simp_all
  ultimately have len: "\<not> length ?v < 2" unfolding ord by simp
  have d: "idx r \<in> dirty_labels cols th (sort_key snd ?v)"
    unfolding ord by (rule dirty_labels_adjacent[OF ne lt])
  from r0 have "LapNumber r = LapNumber r0" by (simp add: mark_def)
  with r0(1) have n: "LapNumber r \<in> set (unique (map LapNumber df))" by (simp add: set_unique)
  have "idx r \<in> ?L"
    unfolding labels_cumulative_def using n len d by (intro UN_I[of "LapNumber r"]) simp_all
  moreover from r0(2) have "idx r = idx r0" by simp
  ultimately have "idx r0 \<in> ?L" by simp
  with r0(2) have "\<not> col_clean_air_flag r" by (simp add: mark_def)
  with flag show False by simp
qed

text \<open>
  C5, as the scripts have it. Both transformers drop the laps without a duration or
  without a driver number before they classify and keep no trace of them: the records
  of a frame are the records of the frame without those laps, so nothing marks a later
  lap of the driver as having an indeterminate cumulative time. On a frame whose laps
  all have a duration and a driver number, which is what the classifiers are given,
  the multi-season classifier returns, and every lap has a cumulative time at its lap
  number and is in the cumulative-time order of its lap number. With distinct labels on
  such a frame: in the 2025 script a lap is flagged clean only if it passes every check,
  that is no pit marker, no safety-car status, not reported inaccurate, and first in
  the cumulative-time order of its lap number or with a float64 difference to the
  cumulative time just before it of at least the threshold; in the reconstructed mode
  of the multi-season script a lap that stands behind another in the order of its lap
  number is flagged clean only if that float64 difference is at least the threshold.
\<close>

theorem reconstructed_mode_checks:
  "(\<exists>recs log log'.
      transform_lap_data cols laps_df sess seas rnd tid im = Inr (recs, log) \<and>
      transform_lap_data cols (filter has_critical laps_df) sess seas rnd tid im = Inr (recs, log')) \<and>
   fst (transform_lap_data_2025 cols (filter has_critical laps_df) sess seas rnd tid)
     = fst (transform_lap_data_2025 cols laps_df sess seas rnd tid) \<and>
   ((\<forall>x \<in> set laps_df. has_critical x) \<longrightarrow>
      (\<exists>returned. detect_clean_air cols th laps_df = Inr returned)) \<and>
   ((\<forall>x \<in> set laps_df. has_critical x) \<and> r \<in> set laps_df \<longrightarrow>
      idx r \<in> fst ` set (valid_cumtimes
                 (with_cumsum cols (sort_key driver_lap_key
                    (map (\<lambda>r. r\<lparr>col_clean_air_flag := True\<rparr>) laps_df))) (LapNumber r)) \<and>
      (\<exists>c. (r\<lparr>col_clean_air_flag := False\<rparr>, c)
             \<in> set (lap_order (with_cumulative_time cols
                      (sorted_by_lap cols (map (\<lambda>r. r\<lparr>col_clean_air_flag := False\<rparr>) laps_df)))
                    (LapNumber r)))) \<and>
   ((\<forall>x \<in> set laps_df. has_critical x) \<and> distinct (map idx laps_df) \<and>
    r \<in> set (detect_clean_air_2025 cols th laps_df) \<and> col_clean_air_flag r \<longrightarrow>
      \<not> is_pit_row r \<and> \<not> is_sc_row r \<and> \<not> is_inaccurate_row r \<and>
      (\<exists>pre c post.
         lap_order (with_cumulative_time cols
                      (sorted_by_lap cols (map (\<lambda>r. r\<lparr>col_clean_air_flag := False\<rparr>) laps_df)))
                   (LapNumber r)
           = pre @ (r\<lparr>col_clean_air_flag := False\<rparr>, c) # post \<and>
         (pre = [] \<or> th \<le> float_sub cols c (snd (last pre))))) \<and>
   ((\<forall>x \<in> set laps_df. has_critical x) \<and> distinct (map idx laps_df) \<and>
    \<not> has_gap_to_leader cols (map (\<lambda>r. r\<lparr>col_clean_air_flag := True\<rparr>) laps_df) \<and>
    detect_clean_air cols th laps_df = Inr out \<and> r \<in> set out \<and> col_clean_air_flag r \<and>
    sort_key snd (valid_cumtimes
       (with_cumsum cols (sort_key driver_lap_key
          (map (\<lambda>r. r\<lparr>col_clean_air_flag := True\<rparr>) laps_df))) (LapNumber r))
      = ahead @ (idx r, t) # behind \<and> ahead \<noteq> [] \<longrightarrow>
      th \<le> float_sub cols t (snd (last ahead)))"
proof -
  let ?T = "map (\<lambda>r. r\<lparr>col_clean_air_flag := True\<rparr>) laps_df"
  let ?F = "map (\<lambda>r. r\<lparr>col_clean_air_flag := False\<rparr>) laps_df"
  have ff: "filter has_critical (filter has_critical laps_df) = filter has_critical laps_df"
    by simp
  have c1: "\<exists>recs log log'.
      transform_lap_data cols laps_df sess seas rnd tid im = Inr (recs, log) \<and>
      transform_lap_data cols (filter has_critical laps_df) sess seas rnd tid im = Inr (recs, log')"
    unfolding transform_lap_data_eq ff by blast
  have c2: "fst (transform_lap_data_2025 cols (filter has_critical laps_df) sess seas rnd tid)
     = fst (transform_lap_data_2025 cols laps_df sess seas rnd tid)"
    unfolding transform_lap_data_2025_eq ff by simp
  have c3: "(\<forall>x \<in> set laps_df. has_critical x) \<longrightarrow>
      (\<exists>returned. detect_clean_air cols th laps_df = Inr returned)"
  proof
    assume "\<forall>x \<in> set laps_df. has_critical x"
    then have "\<forall>x \<in> set laps_df. LapTime x \<noteq> None" unfolding has_critical_def by blast
    from detect_clean_air_returns[OF this]
    show "\<exists>returned. detect_clean_air cols th laps_df = Inr returned" by blast
  qed
  have c4: "(\<forall>x \<in> set laps_df. has_critical x) \<and> r \<in> set laps_df \<longrightarrow>
      idx r \<in> fst ` set (valid_cumtimes (with_cumsum cols (sort_key driver_lap_key ?T)) (LapNumber r)) \<and>
      (\<exists>c. (r\<lparr>col_clean_air_flag := False\<rparr>, c)
             \<in> set (lap_order (with_cumulative_time cols (sorted_by_lap cols ?F)) (LapNumber r)))"
  proof (intro impI, elim conjE)
    assume h: "\<forall>x \<in> set laps_df. has_critical x" "r \<in> set laps_df"
    from h(2) have m: "r\<lparr>col_clean_air_flag := True\<rparr> \<in> set (sort_key driver_lap_key ?T)" by simp
    from h have "has_critical (r\<lparr>col_clean_air_flag := True\<rparr>)" by (simp add: has_critical_def)
    from ranked_cumulative[OF m this, of cols]
    have a: "idx r \<in> fst ` set (valid_cumtimes (with_cumsum cols (sort_key driver_lap_key ?T)) (LapNumber r))"
      by simp
    from h(2) have "r\<lparr>col_clean_air_flag := False\<rparr> \<in> set ?F" by simp
    from ranked_2025[OF this, of cols]
    have b: "\<exists>c. (r\<lparr>col_clean_air_flag := False\<rparr>, c)
             \<in> set (lap_order (with_cumulative_time cols (sorted_by_lap cols ?F)) (LapNumber r))"
      by simp
    from a b show "idx r \<in> fst ` set (valid_cumtimes (with_cumsum cols (sort_key driver_lap_key ?T)) (LapNumber r)) \<and>
      (\<exists>c. (r\<lparr>col_clean_air_flag := False\<rparr>, c)
             \<in> set (lap_order (with_cumulative_time cols (sorted_by_lap cols ?F)) (LapNumber r)))" ..
  qed
  have c5: "(\<forall>x \<in> set laps_df. has_critical x) \<and> distinct (map idx laps_df) \<and>
    r \<in> set (detect_clean_air_2025 cols th laps_df) \<and> col_clean_air_flag r \<longrightarrow>
      \<not> is_pit_row r \<and> \<not> is_sc_row r \<and> \<not> is_inaccurate_row r \<and>
      (\<exists>pre c post.
         lap_order (with_cumulative_time cols (sorted_by_lap cols ?F)) (LapNumber r)
           = pre @ (r\<lparr>col_clean_air_flag := False\<rparr>, c) # post \<and>
         (pre = [] \<or> th \<le> float_sub cols c (snd (last pre))))"
  proof (intro impI, elim conjE)
    assume "distinct (map idx laps_df)" "r \<in> set (detect_clean_air_2025 cols th laps_df)"
      "col_clean_air_flag r"
    then show "\<not> is_pit_row r \<and> \<not> is_sc_row r \<and> \<not> is_inaccurate_row r \<and>
      (\<exists>pre c post.
         lap_order (with_cumulative_time cols (sorted_by_lap cols ?F)) (LapNumber r)
           = pre @ (r\<lparr>col_clean_air_flag := False\<rparr>, c) # post \<and>
         (pre = [] \<or> th \<le> float_sub cols c (snd (last pre))))"
      by (rule detect_clean_air_2025_clean)
  qed
  have c6: "(\<forall>x \<in> set laps_df. has_critical x) \<and> distinct (map idx laps_df) \<and>
    \<not> has_gap_to_leader cols ?T \<and>
    detect_clean_air cols th laps_df = Inr out \<and> r \<in> set out \<and> col_clean_air_flag r \<and>
    sort_key snd (valid_cumtimes (with_cumsum cols (sort_key driver_lap_key ?T)) (LapNumber r))
      = ahead @ (idx r, t) # behind \<and> ahead \<noteq> [] \<longrightarrow>
      th \<le> float_sub cols t (snd (last ahead))"
  proof (intro impI, elim conjE)
    assume h: "\<forall>x \<in> set laps_df. has_critical x" "\<not> has_gap_to_leader cols ?T"
      "detect_clean_air cols th laps_df = Inr out" "r \<in> set out" "col_clean_air_flag r"
      "sort_key snd (valid_cumtimes (with_cumsum cols (sort_key driver_lap_key ?T)) (LapNumber r))
         = ahead @ (idx r, t) # behind" "ahead \<noteq> []"
    from h(1) have "\<forall>x \<in> set laps_df. LapTime x \<noteq> None" unfolding has_critical_def by blast
    from detect_clean_air_returns[OF this, of cols th] h(2,3)
    have "out = mark_cumulative_gaps cols th (sort_key driver_lap_key ?T)"
      by (simp add: clean_air_frame_def)
    with h(4) have "r \<in> set (mark_cumulative_gaps cols th (sort_key driver_lap_key ?T))" by simp
    from cumulative_clean[OF this h(5) h(6) h(7)]
    show "th \<le> float_sub cols t (snd (last ahead))" .
  qed
  show ?thesis by (intro conjI c1 c2 c3 c4 c5 c6)
qed

theorem reconstructed_mode_checks_witness:
  "list_all has_critical scenario_laps \<and> distinct (map idx scenario_laps) \<and>
   scenario_laps ! 5 \<in> set scenario_laps \<and>
   idx (scenario_laps ! 5)
     \<in> fst ` set (valid_cumtimes
          (with_cumsum no_columns (sort_key driver_lap_key
             (map (\<lambda>r. r\<lparr>col_clean_air_flag := True\<rparr>) scenario_laps))) (LapNumber (scenario_laps ! 5))) \<and>
   (\<exists>returned. detect_clean_air no_columns 2 scenario_laps = Inr returned \<and>
      (scenario_laps ! 2)\<lparr>col_clean_air_flag := True\<rparr> \<in> set returned) \<and>
   (mk_lap 0 ''1'' 1 90)\<lparr>col_clean_air_flag := True\<rparr>
     \<in> set (detect_clean_air_2025 no_columns (3 / 2) scenario_laps) \<and>
   col_clean_air_flag ((mk_lap 0 ''1'' 1 90)\<lparr>col_clean_air_flag := True\<rparr>) \<and>
   \<not> is_pit_row ((mk_lap 0 ''1'' 1 90)\<lparr>col_clean_air_flag := True\<rparr>) \<and>
   \<not> has_gap_to_leader no_columns (map (\<lambda>r. r\<lparr>col_clean_air_flag := True\<rparr>) scenario_laps) \<and>
   sort_key snd (valid_cumtimes
       (with_cumsum no_columns (sort_key driver_lap_key
          (map (\<lambda>r. r\<lparr>col_clean_air_flag := True\<rparr>) scenario_laps))) 2)
     = [(3, 182)] @ (2, 185) # [] \<and>
   (2::rat) \<le> float_sub no_columns 185 182"
proof -
  let ?r = "(mk_lap 0 ''1'' 1 90)\<lparr>col_clean_air_flag := True\<rparr>"
  let ?p = "(scenario_laps ! 2)\<lparr>col_clean_air_flag := True\<rparr>"
  have a: "\<forall>x \<in> set scenario_laps. has_critical x"
    by (simp add: scenario_laps_def mk_lap_def has_critical_def)
  then have a': "list_all has_critical scenario_laps" by (simp add: list_all_iff)
  have b: "distinct (map idx scenario_laps)" by (simp add: scenario_laps_def mk_lap_def)
  have c: "scenario_laps ! 5 \<in> set scenario_laps" by (simp add: scenario_laps_def)
  have d: "?r \<in> set (detect_clean_air_2025 no_columns (3 / 2) scenario_laps)"
    by code_simp
  have e: "col_clean_air_flag ?r" by simp
  have f: "\<not> has_gap_to_leader no_columns (map (\<lambda>r. r\<lparr>col_clean_air_flag := True\<rparr>) scenario_laps)"
    by (simp add: has_gap_to_leader_def no_columns_def)
  note t3 = reconstructed_mode_checks[of no_columns scenario_laps _ _ _ _ _ 2,
      THEN conjunct2, THEN conjunct2, THEN conjunct1, THEN mp, OF a]
  then obtain returned where ret: "detect_clean_air no_columns 2 scenario_laps = Inr returned"
    by blast
  have g: "?p \<in> set (projr (detect_clean_air no_columns 2 scenario_laps))"
    by code_simp
  then have g': "?p \<in> set returned" unfolding ret by simp
  have h: "col_clean_air_flag ?p" by simp
  have i: "sort_key snd (valid_cumtimes
       (with_cumsum no_columns (sort_key driver_lap_key
          (map (\<lambda>r. r\<lparr>col_clean_air_flag := True\<rparr>) scenario_laps))) (LapNumber ?p))
     = [(3, 182)] @ (idx ?p, 185) # []"
    by code_simp
  have j: "[(3::nat, 182::rat)] \<noteq> []" by simp
  note t4 = reconstructed_mode_checks[of no_columns scenario_laps _ _ _ _ _ 2 "scenario_laps ! 5",
      THEN conjunct2, THEN conjunct2, THEN conjunct2, THEN conjunct1, THEN mp,
      OF conjI[OF a c], THEN conjunct1]
  note t5 = reconstructed_mode_checks[of no_columns scenario_laps _ _ _ _ _ "3 / 2" ?r,
      THEN conjunct2, THEN conjunct2, THEN conjunct2, THEN conjunct2, THEN conjunct1, THEN mp,
      OF conjI[OF a conjI[OF b conjI[OF d e]]], THEN conjunct1]
  note t6 = reconstructed_mode_checks[of no_columns scenario_laps _ _ _ _ _ 2 ?p returned
      "[(3, 182)]" 185 "[]",
      THEN conjunct2, THEN conjunct2, THEN conjunct2, THEN conjunct2, THEN conjunct2, THEN mp,
      OF conjI[OF a conjI[OF b conjI[OF f conjI[OF ret conjI[OF g' conjI[OF h conjI[OF i j]]]]]]]]
  have i': "sort_key snd (valid_cumtimes
       (with_cumsum no_columns (sort_key driver_lap_key
          (map (\<lambda>r. r\<lparr>col_clean_air_flag := True\<rparr>) scenario_laps))) 2)
     = [(3, 182)] @ (2, 185) # []"
    by code_simp
  from t6 have k: "(2::rat) \<le> float_sub no_columns 185 182" by simp
  from ret g' have x: "\<exists>returned. detect_clean_air no_columns 2 scenario_laps = Inr returned \<and>
      ?p \<in> set returned" by blast
  show ?thesis by (intro conjI a' b c t4 x d e t5 f i' k)
qed

text \<open>
  C5 as stated fails. The duration of driver 2's lap 2 is missing. Both transformers
  still rank driver 2's lap 3, first of its lap number with a cumulative time of 182
  seconds, the total of laps 1 and 3 alone, and flag it clean.
\<close>

theorem reconstructed_mode_checks_counterexample:
  "DriverNumber (missing_prior_laps ! 3) = Some ''2'' \<and> LapNumber (missing_prior_laps ! 3) = 2 \<and>
   LapTime (missing_prior_laps ! 3) = None \<and>
   map_sum id
     (\<lambda>returned. map (\<lambda>rec. (driver_id rec, lap_number rec, clean_air_flag rec)) (fst returned) ! 4)
     (transform_lap_data no_columns missing_prior_laps scenario_session 2024 1 ''test_grand_prix'' Map.empty)
     = Inr (''bob_beta'', 3, True) \<and>
   map (\<lambda>rec. (driver_id rec, lap_number rec, clean_air_flag rec))
     (fst (transform_lap_data_2025 no_columns missing_prior_laps scenario_session 2024 1 ''test_grand_prix'')) ! 4
     = (''bob_beta'', 3, True) \<and>
   sort_key snd (valid_cumtimes
       (with_cumsum no_columns (sort_key driver_lap_key
          (map (\<lambda>r. r\<lparr>col_clean_air_flag := True\<rparr>)
             (detect_stints_and_pit_laps (filter has_critical missing_prior_laps))))) 3)
     = [(5, 182), (4, 270)] \<and>
   map (\<lambda>(r, c). (idx r, c))
     (lap_order (with_cumulative_time no_columns
        (sorted_by_lap no_columns (map (\<lambda>r. r\<lparr>col_clean_air_flag := False\<rparr>)
           (detect_stints (filter has_critical missing_prior_laps))))) 3)
     = [(5, 182), (4, 270)]"
  by code_simp
lemma insort_key_map_commute:
  "(\<And>x. k (f x) = k x) \<Longrightarrow> insort_key k (f x) (map f ys) = map f (insort_key k x ys)"
  by (induction ys) simp_all

lemma sort_key_map_commute:
  "(\<And>x. k (f x) = k x) \<Longrightarrow> sort_key k (map f xs) = map f (sort_key k xs)"
  by (induction xs) (simp_all add: insort_key_map_commute)

lemma lap_data_by_position_raw:
  "lap_data_by_position (map raw df) n = map raw (lap_data_by_position df n)"
  unfolding lap_data_by_position_def
  by (simp add: filter_map comp_def sort_key_map_commute position_key_def)

lemma gap_row_dirty_raw:
  "gap_row_dirty cols th (map raw data) (raw row) = gap_row_dirty cols th data row"
proof -
  have f: "\<And>q. filter (\<lambda>r. Position r = q) (map raw data) = map raw (filter (\<lambda>r. Position r = q) data)"
    by (simp add: filter_map comp_def)
  have h: "\<And>xs. xs \<noteq> [] \<Longrightarrow> GapToLeader (hd (map raw xs)) = GapToLeader (hd xs)"
    by (simp add: hd_map)
  show ?thesis
    unfolding gap_row_dirty_def Let_def f
    by (cases "Position row") (auto simp: h)
qed

lemma foldl_set_clean_air:
  "foldl (\<lambda>df row. if P row then set_clean_air (idx row) v df else df) df rows
     = map (mark v (idx ` {row \<in> set rows. P row})) df"
proof (induction rows arbitrary: df)
  case Nil
  then show ?case by (simp add: mark_empty)
next
  case (Cons x rows)
  have e: "idx ` {row \<in> set (x # rows). P row} =
           idx ` {row \<in> set rows. P row} \<union> (if P x then {idx x} else {})" by auto
  show ?case
    unfolding e by (simp add: Cons set_clean_air_mark mark_mark mark_empty)
qed

lemma foldl_mark_raw:
  assumes "\<And>df x. map raw df = R \<Longrightarrow> step df x = map (mark v (S x)) df" and "map raw df = R"
  shows "foldl step df xs = map (mark v (\<Union>x \<in> set xs. S x)) df"
  using assms(2)
proof (induction xs arbitrary: df)
  case Nil
  then show ?case by (simp add: mark_empty)
next
  case (Cons x xs)
  have st: "step df x = map (mark v (S x)) df" using assms(1) Cons.prems by simp
  then have "map raw (step df x) = R" using Cons.prems by (simp add: comp_def)
  then have "foldl step (step df x) xs = map (mark v (\<Union>y \<in> set xs. S y)) (step df x)"
    by (rule Cons.IH)
  also have "\<dots> = map (mark v ((\<Union>y \<in> set xs. S y) \<union> S x)) df"
    unfolding st by (simp only: map_mark_mark)
  also have "(\<Union>y \<in> set xs. S y) \<union> S x = (\<Union>y \<in> set (x # xs). S y)" by auto
  finally show ?case by simp
qed

lemma gap_labels_raw:
  "idx ` {row \<in> set (lap_data_by_position df n). gap_row_dirty cols th (lap_data_by_position df n) row}
     = gap_labels cols th (map raw df) n"
proof -
  let ?D = "lap_data_by_position df n"
  have "gap_labels cols th (map raw df) n = idx ` {row \<in> raw ` set ?D. gap_row_dirty cols th (map raw ?D) row}"
    by (simp add: gap_labels_def lap_data_by_position_raw)
  also have "{row \<in> raw ` set ?D. gap_row_dirty cols th (map raw ?D) row}
           = raw ` {row \<in> set ?D. gap_row_dirty cols th ?D row}"
    by (auto simp: gap_row_dirty_raw)
  also have "idx ` raw ` {row \<in> set ?D. gap_row_dirty cols th ?D row} = idx ` {row \<in> set ?D. gap_row_dirty cols th ?D row}"
    by (simp add: image_image)
  finally show ?thesis by simp
qed

lemma detect_clean_air_from_gap_labels:
  "detect_clean_air_from_gap cols th df =
     (if has_Position cols
      then map (mark False (\<Union>n \<in> set (unique (map LapNumber df)). gap_labels cols th (map raw df) n)) df
      else df)"
proof (cases "has_Position cols")
  case True
  show ?thesis
    unfolding detect_clean_air_from_gap_def
    by (subst foldl_mark_raw[where R = "map raw df" and v = False and S = "gap_labels cols th (map raw df)"])
       (simp_all add: True Let_def foldl_set_clean_air gap_labels_raw)
next
  case False
  have "foldl (\<lambda>df lap_num. df) df xs = df" for xs :: "nat list"
    by (induction xs) simp_all
  with False show ?thesis by (simp add: detect_clean_air_from_gap_def)
qed

lemma set_lap_data_by_position:
  "set (lap_data_by_position df n) = {r \<in> set df. LapNumber r = n}"
  by (auto simp: lap_data_by_position_def)

lemma gap_mode_flags:
  assumes dist: "distinct (map idx df)" and pos: "has_Position cols"
  shows "detect_clean_air_from_gap cols th df =
           map (\<lambda>r. if gap_row_dirty cols th (lap_data_by_position df (LapNumber r)) r
                    then r\<lparr>col_clean_air_flag := False\<rparr> else r) df"
proof -
  let ?L = "\<Union>n \<in> set (unique (map LapNumber df)). gap_labels cols th (map raw df) n"
  have iff: "idx r \<in> ?L \<longleftrightarrow> gap_row_dirty cols th (lap_data_by_position df (LapNumber r)) r"
    if r: "r \<in> set df" for r
  proof
    assume "idx r \<in> ?L"
    then obtain n where "idx r \<in> gap_labels cols th (map raw df) n" by blast
    then obtain row where row: "row \<in> set (lap_data_by_position df n)"
      "gap_row_dirty cols th (lap_data_by_position df n) row" "idx row = idx r"
      unfolding gap_labels_raw[symmetric] by auto
    from row(1) have "row \<in> set df" "LapNumber row = n" by (simp_all add: set_lap_data_by_position)
    with distinct_idx_eq[OF dist _ r row(3)] have "row = r" "n = LapNumber r" by simp_all
    with row(2) show "gap_row_dirty cols th (lap_data_by_position df (LapNumber r)) r" by simp
  next
    assume d: "gap_row_dirty cols th (lap_data_by_position df (LapNumber r)) r"
    from r have "r \<in> set (lap_data_by_position df (LapNumber r))"
      by (simp add: set_lap_data_by_position)
    with d have "idx r \<in> gap_labels cols th (map raw df) (LapNumber r)"
      unfolding gap_labels_raw[symmetric] by blast
    moreover from r have "LapNumber r \<in> set (unique (map LapNumber df))"
      by (simp add: set_unique)
    ultimately show "idx r \<in> ?L" by blast
  qed
  have "map (mark False ?L) df =
          map (\<lambda>r. if gap_row_dirty cols th (lap_data_by_position df (LapNumber r)) r
                    then r\<lparr>col_clean_air_flag := False\<rparr> else r) df"
  proof (rule map_cong[OF refl])
    fix r assume r: "r \<in> set df"
    show "mark False ?L r = (if gap_row_dirty cols th (lap_data_by_position df (LapNumber r)) r
                    then r\<lparr>col_clean_air_flag := False\<rparr> else r)"
      unfolding mark_def iff[OF r] by (rule refl)
  qed
  then show ?thesis
    unfolding detect_clean_air_from_gap_labels by (simp only: pos if_True)
qed

lemma gap_row_dirty_flag_free:
  "gap_row_dirty cols th (lap_data_by_position (map (\<lambda>r. r\<lparr>col_clean_air_flag := b\<rparr>) df) n)
       (r\<lparr>col_clean_air_flag := b\<rparr>)
     = gap_row_dirty cols th (lap_data_by_position df n) r"
proof -
  have m: "map raw (map (\<lambda>r. r\<lparr>col_clean_air_flag := b\<rparr>) df) = map raw df" by (simp add: comp_def)
  have "gap_row_dirty cols th (lap_data_by_position (map (\<lambda>r. r\<lparr>col_clean_air_flag := b\<rparr>) df) n)
            (r\<lparr>col_clean_air_flag := b\<rparr>)
        = gap_row_dirty cols th (map raw (lap_data_by_position (map (\<lambda>r. r\<lparr>col_clean_air_flag := b\<rparr>) df) n))
            (raw (r\<lparr>col_clean_air_flag := b\<rparr>))"
    by (simp only: gap_row_dirty_raw)
  also have "\<dots> = gap_row_dirty cols th (map raw (lap_data_by_position df n)) (raw r)"
    by (simp only: lap_data_by_position_raw[symmetric] m raw_simps)
  also have "\<dots> = gap_row_dirty cols th (lap_data_by_position df n) r"
    by (simp only: gap_row_dirty_raw)
  finally show ?thesis .
qed

lemma has_gap_to_leader_flag_free:
  "has_gap_to_leader cols (map (\<lambda>r. r\<lparr>col_clean_air_flag := b\<rparr>) df) = has_gap_to_leader cols df"
  by (simp add: has_gap_to_leader_def filter_map comp_def)

lemma detect_clean_air_gap_mode:
  assumes "distinct (map idx laps_df)" and "has_Position cols" and "has_gap_to_leader cols laps_df"
  shows "detect_clean_air cols th laps_df =
           Inr (map (\<lambda>r. r\<lparr>col_clean_air_flag :=
                     \<not> gap_row_dirty cols th (lap_data_by_position laps_df (LapNumber r)) r\<rparr>) laps_df)"
proof -
  let ?df = "map (\<lambda>r. r\<lparr>col_clean_air_flag := True\<rparr>) laps_df"
  have d: "distinct (map idx ?df)" using assms(1) by (simp add: comp_def)
  have g: "detect_clean_air cols th laps_df = Inr (detect_clean_air_from_gap cols th ?df)"
    using assms(3) by (simp add: detect_clean_air_def has_gap_to_leader_flag_free)
  have "detect_clean_air_from_gap cols th ?df = map (\<lambda>r. if gap_row_dirty cols th (lap_data_by_position ?df (LapNumber r)) r
                    then r\<lparr>col_clean_air_flag := False\<rparr> else r) ?df"
    by (rule gap_mode_flags[OF d assms(2)])
  also have "\<dots> = map (\<lambda>r. r\<lparr>col_clean_air_flag :=
                     \<not> gap_row_dirty cols th (lap_data_by_position laps_df (LapNumber r)) r\<rparr>) laps_df"
    unfolding map_map comp_def
    by (rule map_cong[OF refl]) (simp add: gap_row_dirty_flag_free)
  finally show ?thesis unfolding g by simp
qed

text \<open>
  C6, as the multi-season script has it. The direct-gap method is used when the frame has
  the gap column and more than half of all its laps carry a gap; the reconstructed
  method when the column is absent or fewer than half carry one. In direct-gap mode, on a
  frame with positions and distinct labels, the classifier returns, and a lap is clean
  unless the loop finds it dirty: a lap at position 1 is always clean; a lap at another
  position whose own gap and the gap of the first row one position ahead at its lap
  number are both present is clean exactly when the float64 difference of the two gaps
  is at least the threshold; a lap with a missing gap, a missing position, no row one
  position ahead or no gap on that row is clean.
\<close>

theorem direct_gap_mode:
  "(has_GapToLeader cols \<and>
    length laps_df < 2 * length (filter (\<lambda>r. GapToLeader r \<noteq> None) laps_df) \<longrightarrow>
      detect_clean_air cols th laps_df
        = Inr (detect_clean_air_from_gap cols th (map (\<lambda>r. r\<lparr>col_clean_air_flag := True\<rparr>) laps_df))) \<and>
   (\<not> has_GapToLeader cols \<or>
    2 * length (filter (\<lambda>r. GapToLeader r \<noteq> None) laps_df) < length laps_df \<longrightarrow>
      detect_clean_air cols th laps_df
        = detect_clean_air_from_cumulative cols th (map (\<lambda>r. r\<lparr>col_clean_air_flag := True\<rparr>) laps_df)) \<and>
   (distinct (map idx laps_df) \<and> has_Position cols \<and> has_gap_to_leader cols laps_df \<longrightarrow>
      detect_clean_air cols th laps_df
        = Inr (map (\<lambda>r. r\<lparr>col_clean_air_flag :=
                     \<not> gap_row_dirty cols th (lap_data_by_position laps_df (LapNumber r)) r\<rparr>) laps_df)) \<and>
   (Position r = Some 1 \<longrightarrow> \<not> gap_row_dirty cols th lap_data r) \<and>
   (Position r = Some p \<and> p \<noteq> 1 \<and> GapToLeader r = Some g \<and>
    filter (\<lambda>a. Position a = Some (p - 1)) lap_data = a # rest \<and> GapToLeader a = Some ga \<longrightarrow>
      (\<not> gap_row_dirty cols th lap_data r) = (th \<le> float_sub cols g ga)) \<and>
   (GapToLeader r = None \<or> Position r = None \<or>
    (\<exists>q. Position r = Some q \<and>
         (filter (\<lambda>a. Position a = Some (q - 1)) lap_data = [] \<or>
          GapToLeader (hd (filter (\<lambda>a. Position a = Some (q - 1)) lap_data)) = None)) \<longrightarrow>
      \<not> gap_row_dirty cols th lap_data r)"
proof (intro conjI impI)
  assume "has_GapToLeader cols \<and> length laps_df < 2 * length (filter (\<lambda>r. GapToLeader r \<noteq> None) laps_df)"
  then have "has_gap_to_leader cols laps_df" unfolding has_gap_to_leader_def .
  then show "detect_clean_air cols th laps_df
        = Inr (detect_clean_air_from_gap cols th (map (\<lambda>r. r\<lparr>col_clean_air_flag := True\<rparr>) laps_df))"
    by (simp add: detect_clean_air_def has_gap_to_leader_flag_free)
next
  assume "\<not> has_GapToLeader cols \<or> 2 * length (filter (\<lambda>r. GapToLeader r \<noteq> None) laps_df) < length laps_df"
  then have "\<not> has_gap_to_leader cols laps_df" by (auto simp: has_gap_to_leader_def)
  then show "detect_clean_air cols th laps_df
        = detect_clean_air_from_cumulative cols th (map (\<lambda>r. r\<lparr>col_clean_air_flag := True\<rparr>) laps_df)"
    by (simp add: detect_clean_air_def has_gap_to_leader_flag_free)
next
  assume "distinct (map idx laps_df) \<and> has_Position cols \<and> has_gap_to_leader cols laps_df"
  then show "detect_clean_air cols th laps_df
        = Inr (map (\<lambda>r. r\<lparr>col_clean_air_flag :=
                     \<not> gap_row_dirty cols th (lap_data_by_position laps_df (LapNumber r)) r\<rparr>) laps_df)"
    using detect_clean_air_gap_mode by blast
next
  assume "Position r = Some 1"
  then show "\<not> gap_row_dirty cols th lap_data r" by (simp add: gap_row_dirty_def)
next
  assume "Position r = Some p \<and> p \<noteq> 1 \<and> GapToLeader r = Some g \<and>
    filter (\<lambda>a. Position a = Some (p - 1)) lap_data = a # rest \<and> GapToLeader a = Some ga"
  then show "(\<not> gap_row_dirty cols th lap_data r) = (th \<le> float_sub cols g ga)"
    by (auto simp: gap_row_dirty_def)
next
  assume "GapToLeader r = None \<or> Position r = None \<or>
    (\<exists>q. Position r = Some q \<and>
         (filter (\<lambda>a. Position a = Some (q - 1)) lap_data = [] \<or>
          GapToLeader (hd (filter (\<lambda>a. Position a = Some (q - 1)) lap_data)) = None))"
  then show "\<not> gap_row_dirty cols th lap_data r"
    by (auto simp: gap_row_dirty_def)
qed

theorem direct_gap_mode_witness:
  "has_GapToLeader all_columns \<and>
   length gap_laps < 2 * length (filter (\<lambda>r. GapToLeader r \<noteq> None) gap_laps) \<and>
   distinct (map idx gap_laps) \<and> has_Position all_columns \<and> has_gap_to_leader all_columns gap_laps \<and>
   map_sum id (map col_clean_air_flag) (detect_clean_air all_columns 2 gap_laps)
     = Inr [True, False, True] \<and>
   detect_clean_air all_columns 2 gap_laps
     = Inr (detect_clean_air_from_gap all_columns 2 (map (\<lambda>r. r\<lparr>col_clean_air_flag := True\<rparr>) gap_laps)) \<and>
   Position (gap_laps ! 0) = Some 1 \<and>
   \<not> gap_row_dirty all_columns 2 gap_laps (gap_laps ! 0) \<and>
   Position (gap_laps ! 1) = Some 2 \<and> (2::int) \<noteq> 1 \<and> GapToLeader (gap_laps ! 1) = Some (1 / 2) \<and>
   filter (\<lambda>a. Position a = Some (2 - 1)) gap_laps = [gap_laps ! 0] \<and>
   GapToLeader (gap_laps ! 0) = Some 0 \<and>
   (\<not> gap_row_dirty all_columns 2 gap_laps (gap_laps ! 1))
     = (2 \<le> float_sub all_columns (1 / 2) 0) \<and>
   \<not> has_GapToLeader no_columns \<and>
   detect_clean_air no_columns 2 scenario_laps
     = detect_clean_air_from_cumulative no_columns 2
         (map (\<lambda>r. r\<lparr>col_clean_air_flag := True\<rparr>) scenario_laps)"
proof -
  have a: "has_GapToLeader all_columns" "has_Position all_columns" by (simp_all add: all_columns_def)
  have b: "length gap_laps < 2 * length (filter (\<lambda>r. GapToLeader r \<noteq> None) gap_laps)"
    by (simp add: gap_laps_def mk_lap_def)
  have c: "distinct (map idx gap_laps)" by (simp add: gap_laps_def mk_lap_def)
  have d: "has_gap_to_leader all_columns gap_laps"
    unfolding has_gap_to_leader_def by (intro conjI a(1) b)
  have e: "Position (gap_laps ! 0) = Some 1" by (simp add: gap_laps_def mk_lap_def)
  have f: "\<not> has_GapToLeader no_columns" by (simp add: no_columns_def)
  have h1: "Position (gap_laps ! 1) = Some 2" by (simp add: gap_laps_def mk_lap_def)
  have h2: "(2::int) \<noteq> 1" by simp
  have h3: "GapToLeader (gap_laps ! 1) = Some (1 / 2)" by (simp add: gap_laps_def mk_lap_def)
  have h4: "filter (\<lambda>a. Position a = Some (2 - 1)) gap_laps = [gap_laps ! 0]"
    by (simp add: gap_laps_def mk_lap_def)
  have h5: "GapToLeader (gap_laps ! 0) = Some 0" by (simp add: gap_laps_def mk_lap_def)
  note t = direct_gap_mode[of all_columns gap_laps 2 "gap_laps ! 0" gap_laps]
  note t1 = t[THEN conjunct1, THEN mp, OF conjI[OF a(1) b]]
  note t3 = t[THEN conjunct2, THEN conjunct2, THEN conjunct1, THEN mp, OF conjI[OF c conjI[OF a(2) d]]]
  note t4 = t[THEN conjunct2, THEN conjunct2, THEN conjunct2, THEN conjunct1, THEN mp, OF e]
  note t5 = direct_gap_mode[of all_columns gap_laps 2 "gap_laps ! 1" gap_laps 2 "1 / 2"
      "gap_laps ! 0" "[]" 0,
      THEN conjunct2, THEN conjunct2, THEN conjunct2, THEN conjunct2, THEN conjunct1, THEN mp,
      OF conjI[OF h1 conjI[OF h2 conjI[OF h3 conjI[OF h4 h5]]]]]
  note t2 = direct_gap_mode[of no_columns scenario_laps 2, THEN conjunct2, THEN conjunct1, THEN mp,
      OF disjI1[OF f]]
  have "map col_clean_air_flag
          (map (\<lambda>r. r\<lparr>col_clean_air_flag :=
                     \<not> gap_row_dirty all_columns 2 (lap_data_by_position gap_laps (LapNumber r)) r\<rparr>) gap_laps)
        = [True, False, True]"
    by code_simp
  then have g: "map_sum id (map col_clean_air_flag) (detect_clean_air all_columns 2 gap_laps)
                  = Inr [True, False, True]"
    unfolding t3 by simp
  show ?thesis by (intro conjI a b c d e f g h1 h2 h3 h4 h5 t1 t2 t4 t5)
qed

text \<open>
  C6 as stated fails: with the gap present on every lap of lap number 1 but on a third
  of the race, the script uses the reconstructed method for lap 1 as well, and the lap
  half a second behind the leader, dirty by the direct-gap rule, comes out clean.
\<close>

theorem direct_gap_mode_counterexample:
  "spec_gap_present_at partial_gap_laps 1 \<and>
   \<not> has_gap_to_leader all_columns partial_gap_laps \<and>
   map_sum id (map (\<lambda>r. (idx r, col_clean_air_flag r))) (detect_clean_air all_columns 2 partial_gap_laps)
     = Inr [(0, True), (2, True), (4, True), (1, True), (3, True), (5, True)] \<and>
   map (\<lambda>r. (idx r, col_clean_air_flag r))
     (detect_clean_air_from_gap all_columns 2 (map (\<lambda>r. r\<lparr>col_clean_air_flag := True\<rparr>) partial_gap_laps))
     = [(0, True), (1, False), (2, True), (3, True), (4, True), (5, True)]"
  by code_simp

end
